theory Spec2Isabelle
  imports Main "HOL-Library.Word"
begin

unbundle bit_operations_syntax

section \<open>FARFS: a read-only archive served as a file system (farfs.c)\<close>

text \<open>
  The model follows \<^verbatim>\<open>farfs.c\<close> function by function. The archive is a byte image
  (\<^verbatim>\<open>far_mapping\<close>); an entry is a pointer, either to the static \<^verbatim>\<open>dummy_root\<close>
  or to a 16-byte record inside the image. The host is little-endian, so that
  \<^verbatim>\<open>le32_to_cpu\<close> is the identity and a 32-bit load decodes four bytes, least
  significant first. A C function either returns, or the process stops: \<^verbatim>\<open>abort()\<close>
  is the value \<open>Inl Abort\<close>, and a load outside the image (or through a handle that is
  not allocated), about which C says nothing, is \<open>Inl Fault\<close>.
\<close>

subsection \<open>Machine types, constants of the C library\<close>

type_synonym u32 = "32 word"
type_synonym u64 = "64 word"

datatype crash = Abort | Fault

definition bind_res :: "crash + 'a \<Rightarrow> ('a \<Rightarrow> crash + 'b) \<Rightarrow> crash + 'b" where
  "bind_res r f = (case r of Inl c \<Rightarrow> Inl c | Inr x \<Rightarrow> f x)"

text \<open>Values of \<^verbatim>\<open>errno.h\<close>, \<^verbatim>\<open>fcntl.h\<close> and \<^verbatim>\<open>sys/stat.h\<close> on Linux.\<close>

definition ENOENT :: int where "ENOENT = 2"
definition ENOMEM :: int where "ENOMEM = 12"
definition EACCES :: int where "EACCES = 13"
definition ENOTDIR :: int where "ENOTDIR = 20"
definition EINVAL :: int where "EINVAL = 22"
definition EROFS :: int where "EROFS = 30"

definition O_ACCMODE :: u32 where "O_ACCMODE = 3"
definition O_RDONLY :: u32 where "O_RDONLY = 0"
definition O_WRONLY :: u32 where "O_WRONLY = 1"
definition O_RDWR :: u32 where "O_RDWR = 2"
definition O_CREAT :: u32 where "O_CREAT = 64"

text \<open>\<^verbatim>\<open>FAR_DIR_MODE\<close> is octal 040555, \<^verbatim>\<open>FAR_FILE_MODE\<close> is octal 0100444.\<close>

definition FAR_DIR_MODE :: int where "FAR_DIR_MODE = 16749"
definition FAR_FILE_MODE :: int where "FAR_FILE_MODE = 33060"

definition FAR_FILE_TYPE :: u32 where "FAR_FILE_TYPE = 0"
definition FAR_DIR_TYPE :: u32 where "FAR_DIR_TYPE = 1"

text \<open>\<^verbatim>\<open>MAGIC('F', 'A', 'R', '\0')\<close>\<close>

definition FAR_MAGIC :: u32 where
  "FAR_MAGIC = 70 OR push_bit 8 65 OR push_bit 16 82 OR push_bit 24 0"

text \<open>\<^verbatim>\<open>sizeof(FARentry_t)\<close> and \<^verbatim>\<open>offsetof(FARheader_t, rootdir)\<close>\<close>

definition sizeof_FARentry_t :: nat where "sizeof_FARentry_t = 16"
definition offsetof_rootdir :: nat where "offsetof_rootdir = 20"

subsection \<open>Data\<close>

record FARentry_t =
  flags :: u32
  nameoff :: u32
  dataoff :: u32
  size_fld :: u32

text \<open>A \<^verbatim>\<open>const FARentry_t *\<close>: the address of \<^verbatim>\<open>dummy_root\<close>, or an offset into the image.\<close>

datatype entry_ptr = Root | At nat

record far_dir_t =
  parent :: entry_ptr
  entry :: entry_ptr

text \<open>
  The globals of the program, the identity of the process (\<^verbatim>\<open>getuid\<close>, \<^verbatim>\<open>getgid\<close>)
  and the \<^verbatim>\<open>far_dir_t\<close> objects that \<^verbatim>\<open>malloc\<close> has handed out, by address.
  \<^verbatim>\<open>header\<close> is the start of the mapping.
\<close>

record far_state =
  far_mapping :: "char list"
  dummy_root :: FARentry_t
  far_atime :: int
  far_mtime :: int
  far_ctime :: int
  proc_uid :: int
  proc_gid :: int
  dirs :: "nat \<rightharpoonup> far_dir_t"

record stat =
  st_dev :: int
  st_ino :: int
  st_nlink :: int
  st_uid :: int
  st_gid :: int
  st_rdev :: int
  st_size :: int
  st_blksize :: int
  st_blocks :: int
  st_atime :: int
  st_mtime :: int
  st_ctime :: int
  st_mode :: int

text \<open>\<^verbatim>\<open>fi->fh\<close> is an integer that holds a pointer: to an entry after \<^verbatim>\<open>far_open\<close>,
  to a \<^verbatim>\<open>far_dir_t\<close> after \<^verbatim>\<open>far_opendir\<close>.\<close>

datatype fh_t = NoHandle | EntryHandle entry_ptr | DirHandle nat

record fuse_file_info =
  fi_flags :: u32
  fh :: fh_t
  keep_cache :: int

subsection \<open>Loads from the mapping\<close>

definition load32 :: "char list \<Rightarrow> nat \<Rightarrow> crash + u32" where
  "load32 m a =
     (if a + 4 \<le> length m
      then Inr (word_of_nat (of_char (m ! a) + 256 * of_char (m ! (a + 1))
                  + 65536 * of_char (m ! (a + 2)) + 16777216 * of_char (m ! (a + 3))))
      else Inl Fault)"

text \<open>The C string that starts at an offset: its bytes up to the terminator.\<close>

definition c_string :: "char list \<Rightarrow> nat \<Rightarrow> crash + string" where
  "c_string m a =
     (if CHR 0x00 \<in> set (drop a m)
      then Inr (takeWhile (\<lambda>c. c \<noteq> CHR 0x00) (drop a m))
      else Inl Fault)"

definition c_strlen :: "char list \<Rightarrow> nat \<Rightarrow> crash + nat" where
  "c_strlen m a = bind_res (c_string m a) (\<lambda>nm. Inr (length nm))"

text \<open>\<^verbatim>\<open>memcmp(path, name, n) == 0\<close>, for the \<open>n\<close> bytes \<open>cpt\<close> of the path.\<close>

definition c_memcmp_eq :: "string \<Rightarrow> char list \<Rightarrow> nat \<Rightarrow> crash + bool" where
  "c_memcmp_eq cpt m a =
     (if a + length cpt \<le> length m
      then Inr (take (length cpt) (drop a m) = cpt)
      else Inl Fault)"

text \<open>
  \<^verbatim>\<open>strcmp(path, name) == 0\<close>, for a path given by its bytes before the terminator:
  the comparison reads the name byte by byte and stops at the first difference.
\<close>

fun c_strcmp_eq :: "string \<Rightarrow> char list \<Rightarrow> nat \<Rightarrow> crash + bool" where
  "c_strcmp_eq [] m a =
     (if a < length m then Inr (m ! a = CHR 0x00) else Inl Fault)"
| "c_strcmp_eq (c # cs) m a =
     (if a < length m
      then (if m ! a = c then c_strcmp_eq cs m (a + 1) else Inr False)
      else Inl Fault)"

text \<open>\<^verbatim>\<open>strchr(path, c)\<close>: the index of the first occurrence, or \<^verbatim>\<open>NULL\<close>.\<close>

fun strchr :: "string \<Rightarrow> char \<Rightarrow> nat option" where
  "strchr [] c = None"
| "strchr (x # xs) c =
     (if x = c then Some 0 else (case strchr xs c of None \<Rightarrow> None | Some k \<Rightarrow> Some (Suc k)))"

subsection \<open>Accessors of an entry\<close>

definition entry_flags :: "far_state \<Rightarrow> entry_ptr \<Rightarrow> crash + u32" where
  "entry_flags s e =
     (case e of Root \<Rightarrow> Inr (flags (dummy_root s)) | At a \<Rightarrow> load32 (far_mapping s) a)"

definition entry_nameoff :: "far_state \<Rightarrow> entry_ptr \<Rightarrow> crash + u32" where
  "entry_nameoff s e =
     (case e of Root \<Rightarrow> Inr (nameoff (dummy_root s)) | At a \<Rightarrow> load32 (far_mapping s) (a + 4))"

definition entry_dataoff :: "far_state \<Rightarrow> entry_ptr \<Rightarrow> crash + u32" where
  "entry_dataoff s e =
     (case e of Root \<Rightarrow> Inr (dataoff (dummy_root s)) | At a \<Rightarrow> load32 (far_mapping s) (a + 8))"

definition entry_size :: "far_state \<Rightarrow> entry_ptr \<Rightarrow> crash + u32" where
  "entry_size s e =
     (case e of Root \<Rightarrow> Inr (size_fld (dummy_root s)) | At a \<Rightarrow> load32 (far_mapping s) (a + 12))"

definition far_type :: "far_state \<Rightarrow> entry_ptr \<Rightarrow> crash + u32" where
  "far_type s e = bind_res (entry_flags s e) (\<lambda>f. Inr (f AND 0xFF))"

text \<open>\<^verbatim>\<open>far_name\<close> and \<^verbatim>\<open>far_data\<close> return pointers into the mapping, here offsets.\<close>

definition far_name :: "far_state \<Rightarrow> entry_ptr \<Rightarrow> crash + nat" where
  "far_name s e = bind_res (entry_nameoff s e) (\<lambda>off. Inr (unat off))"

definition far_data :: "far_state \<Rightarrow> entry_ptr \<Rightarrow> crash + nat" where
  "far_data s e = bind_res (entry_dataoff s e) (\<lambda>off. Inr (unat off))"

definition far_datasize :: "far_state \<Rightarrow> entry_ptr \<Rightarrow> crash + u32" where
  "far_datasize s e = entry_size s e"

definition far_children :: "far_state \<Rightarrow> entry_ptr \<Rightarrow> crash + nat" where
  "far_children s e =
     bind_res (far_type s e) (\<lambda>t. if t \<noteq> FAR_DIR_TYPE then Inl Abort else far_data s e)"

text \<open>\<^verbatim>\<open>children + i\<close>\<close>

definition child_at :: "nat \<Rightarrow> nat \<Rightarrow> entry_ptr" where
  "child_at children i = At (children + sizeof_FARentry_t * i)"

text \<open>\<^verbatim>\<open>far_dir_new\<close>: the argument \<open>m\<close> is what \<^verbatim>\<open>malloc\<close> returns, \<open>None\<close> for \<^verbatim>\<open>NULL\<close>.\<close>

definition far_dir_new ::
  "far_state \<Rightarrow> nat option \<Rightarrow> entry_ptr \<Rightarrow> entry_ptr \<Rightarrow> far_state \<times> nat option" where
  "far_dir_new s m p e =
     (case m of
        None \<Rightarrow> (s, None)
      | Some d \<Rightarrow> (s\<lparr>dirs := (dirs s)(d \<mapsto> \<lparr>parent = p, entry = e\<rparr>)\<rparr>, Some d))"

subsection \<open>\<^verbatim>\<open>far_fill_stat\<close>\<close>

text \<open>The loop that counts the child directories, from index \<open>i\<close> with \<open>nl\<close> links so far.\<close>

function nlink_loop :: "far_state \<Rightarrow> nat \<Rightarrow> nat \<Rightarrow> nat \<Rightarrow> int \<Rightarrow> crash + int" where
  "nlink_loop s children num_children i nl =
     (if i < num_children
      then (case far_type s (child_at children i) of
              Inl c \<Rightarrow> Inl c
            | Inr t \<Rightarrow>
                nlink_loop s children num_children (i + 1)
                  (if t = FAR_DIR_TYPE then nl + 1 else nl))
      else Inr nl)"
  by pat_completeness auto
termination
  by (relation "measure (\<lambda>(s, children, num_children, i, nl). num_children - i)") auto

text \<open>
  \<^verbatim>\<open>entry - header->rootdir\<close> is a difference of \<^verbatim>\<open>FARentry_t\<close> pointers: the byte
  distance divided by the record size (an arithmetic shift in the compiled code, hence
  rounding down), converted to the unsigned 64-bit \<^verbatim>\<open>ino_t\<close>.
\<close>

definition entry_ino :: "entry_ptr \<Rightarrow> int" where
  "entry_ino e =
     (case e of
        Root \<Rightarrow> 1
      | At a \<Rightarrow> ((int a - int offsetof_rootdir) div int sizeof_FARentry_t + 2) mod 2 ^ 64)"

definition far_fill_stat :: "far_state \<Rightarrow> entry_ptr \<Rightarrow> crash + stat" where
  "far_fill_stat s e =
     bind_res (far_type s e) (\<lambda>t.
     bind_res (if t = FAR_DIR_TYPE
               then bind_res (far_datasize s e) (\<lambda>num_children.
                    bind_res (far_children s e) (\<lambda>children.
                      nlink_loop s children (unat num_children) 0 2))
               else Inr 1) (\<lambda>nl.
     bind_res (far_datasize s e) (\<lambda>sz.
       let st_sz = (if t = FAR_DIR_TYPE then int (unat sz * sizeof_FARentry_t) else uint sz)
       in Inr \<lparr>st_dev = 0, st_ino = entry_ino e, st_nlink = nl,
               st_uid = proc_uid s, st_gid = proc_gid s, st_rdev = 0,
               st_size = st_sz, st_blksize = 4096,
               st_blocks = (st_sz + 4096 - 1) div 512,
               st_atime = far_atime s, st_mtime = far_mtime s, st_ctime = far_ctime s,
               st_mode = (if t = FAR_DIR_TYPE then FAR_DIR_MODE else FAR_FILE_MODE)\<rparr>)))"

subsection \<open>\<^verbatim>\<open>far_traverse_path\<close>\<close>

text \<open>
  The inner loop over the children of \<open>dir\<close> for an intermediate component \<open>cpt\<close> (the
  bytes of the path before the next slash): the first child whose name has the length
  and the bytes of the component, or \<open>None\<close> when the loop runs to its end.
\<close>

function scan_component ::
  "far_state \<Rightarrow> entry_ptr \<Rightarrow> string \<Rightarrow> nat \<Rightarrow> nat \<Rightarrow> crash + entry_ptr option" where
  "scan_component s dir cpt num_subdirs i =
     (if i < num_subdirs
      then (case far_children s dir of
              Inl c \<Rightarrow> Inl c
            | Inr children \<Rightarrow>
               (case far_name s (child_at children i) of
                  Inl c \<Rightarrow> Inl c
                | Inr name \<Rightarrow>
                   (case c_strlen (far_mapping s) name of
                      Inl c \<Rightarrow> Inl c
                    | Inr len \<Rightarrow>
                       if len = length cpt
                       then (case c_memcmp_eq cpt (far_mapping s) name of
                               Inl c \<Rightarrow> Inl c
                             | Inr eq \<Rightarrow>
                                 if eq then Inr (Some (child_at children i))
                                 else scan_component s dir cpt num_subdirs (i + 1))
                       else scan_component s dir cpt num_subdirs (i + 1))))
      else Inr None)"
  by pat_completeness auto
termination
  by (relation "measure (\<lambda>(s, dir, cpt, num_subdirs, i). num_subdirs - i)") auto

text \<open>The loop for the final component, which compares with \<^verbatim>\<open>strcmp\<close>.\<close>

function scan_final ::
  "far_state \<Rightarrow> entry_ptr \<Rightarrow> string \<Rightarrow> nat \<Rightarrow> nat \<Rightarrow> crash + entry_ptr option" where
  "scan_final s dir path num_subdirs i =
     (if i < num_subdirs
      then (case far_children s dir of
              Inl c \<Rightarrow> Inl c
            | Inr children \<Rightarrow>
               (case far_name s (child_at children i) of
                  Inl c \<Rightarrow> Inl c
                | Inr name \<Rightarrow>
                   (case c_strcmp_eq path (far_mapping s) name of
                      Inl c \<Rightarrow> Inl c
                    | Inr eq \<Rightarrow>
                        if eq then Inr (Some (child_at children i))
                        else scan_final s dir path num_subdirs (i + 1))))
      else Inr None)"
  by pat_completeness auto
termination
  by (relation "measure (\<lambda>(s, dir, path, num_subdirs, i). num_subdirs - i)") auto

text \<open>
  The \<^verbatim>\<open>while\<close> loop over the intermediate components and the final lookup; \<open>path\<close> is
  what is left of the path, \<open>par\<close> the current value of \<^verbatim>\<open>*parent\<close>. The result is
  the returned pointer (\<open>None\<close> for \<^verbatim>\<open>NULL\<close>) and the final \<^verbatim>\<open>*parent\<close>.
\<close>

function traverse_loop ::
  "far_state \<Rightarrow> entry_ptr \<Rightarrow> entry_ptr \<Rightarrow> string \<Rightarrow> crash + (entry_ptr option \<times> entry_ptr)" where
  "traverse_loop s par dir path =
     (case strchr path CHR ''/'' of
        Some k \<Rightarrow>
         (case far_datasize s dir of
            Inl c \<Rightarrow> Inl c
          | Inr num_subdirs \<Rightarrow>
             (case scan_component s dir (take k path) (unat num_subdirs) 0 of
                Inl c \<Rightarrow> Inl c
              | Inr None \<Rightarrow> traverse_loop s par dir (drop (Suc k) path)
              | Inr (Some e) \<Rightarrow> traverse_loop s dir e (drop (Suc k) path)))
      | None \<Rightarrow>
         (case far_datasize s dir of
            Inl c \<Rightarrow> Inl c
          | Inr num_subdirs \<Rightarrow>
             (case scan_final s dir path (unat num_subdirs) 0 of
                Inl c \<Rightarrow> Inl c
              | Inr r \<Rightarrow> Inr (r, par))))"
  by pat_completeness auto
termination
proof (relation "measure (\<lambda>(s, par, dir, path). length path)")
  have less: "k < length xs" if "strchr xs c = Some k" for xs c k
    using that by (induction xs arbitrary: k) (auto split: if_splits option.splits)
  show "wf (measure (\<lambda>(s, par, dir, path). length path))"
    by simp
  show "((s, par, dir, drop (Suc k) path), (s, par, dir, path))
          \<in> measure (\<lambda>(s, par, dir, path). length path)"
    if "strchr path CHR ''/'' = Some k"
    for s :: far_state and par dir :: entry_ptr and path k
    using less [OF that] by simp
  show "((s, dir, e, drop (Suc k) path), (s, par, dir, path))
          \<in> measure (\<lambda>(s, par, dir, path). length path)"
    if "strchr path CHR ''/'' = Some k"
    for s :: far_state and par dir e :: entry_ptr and path k
    using less [OF that] by simp
qed

text \<open>
  A path is the bytes of the C string before its terminator. \<^verbatim>\<open>++path\<close> steps over
  the first byte whatever it is; on the empty string it leaves the string.
\<close>

definition far_traverse_path ::
  "far_state \<Rightarrow> string \<Rightarrow> crash + (entry_ptr option \<times> entry_ptr)" where
  "far_traverse_path s path =
     (if path = ''/'' then Inr (Some Root, Root)
      else (case path of
              [] \<Rightarrow> Inl Fault
            | x # path' \<Rightarrow> traverse_loop s Root Root path'))"

subsection \<open>The operations\<close>

text \<open>Each returns the C return value and what it wrote through its out parameters.\<close>

definition far_getattr :: "far_state \<Rightarrow> string \<Rightarrow> crash + (int \<times> stat option)" where
  "far_getattr s path =
     bind_res (far_traverse_path s path) (\<lambda>(r, par).
       case r of
         None \<Rightarrow> Inr (- ENOENT, None)
       | Some e \<Rightarrow> bind_res (far_fill_stat s e) (\<lambda>st. Inr (0, Some st)))"

text \<open>
  The filler takes the buffer, a name, the attributes and the next offset, and returns
  the buffer and a value that is not zero when the buffer is full. The cursor is an
  \<^verbatim>\<open>off_t\<close>; the code increments it only where it equals 0, 1 or the loop counter, which
  is below \<open>2 ^ 32 + 2\<close>, so no operation on it overflows and it is modelled as \<open>int\<close>.
\<close>

type_synonym 'b fuse_fill_dir_t = "'b \<Rightarrow> string \<Rightarrow> stat \<Rightarrow> int \<Rightarrow> 'b \<times> int"

function readdir_loop ::
  "far_state \<Rightarrow> far_dir_t \<Rightarrow> 'b fuse_fill_dir_t \<Rightarrow> 'b \<Rightarrow> int \<Rightarrow> int \<Rightarrow> crash + (int \<times> 'b)" where
  "readdir_loop s dir filler buffer offset off =
     (case far_datasize s (entry dir) of
        Inl c \<Rightarrow> Inl c
      | Inr n \<Rightarrow>
          if off - 2 < uint n
          then (if off = offset
                then (case far_children s (entry dir) of
                        Inl c \<Rightarrow> Inl c
                      | Inr children \<Rightarrow>
                         (case far_fill_stat s (child_at children (nat (off - 2))) of
                            Inl c \<Rightarrow> Inl c
                          | Inr st \<Rightarrow>
                             (case far_name s (child_at children (nat (off - 2))) of
                                Inl c \<Rightarrow> Inl c
                              | Inr name \<Rightarrow>
                                 (case c_string (far_mapping s) name of
                                    Inl c \<Rightarrow> Inl c
                                  | Inr nm \<Rightarrow>
                                     (case filler buffer nm st (offset + 1) of
                                        (buffer', full) \<Rightarrow>
                                          if full \<noteq> 0 then Inr (0, buffer')
                                          else readdir_loop s dir filler buffer'
                                                 (offset + 1) (off + 1))))))
                else readdir_loop s dir filler buffer offset (off + 1))
          else Inr (0, buffer))"
  by pat_completeness auto
termination
  by (relation "measure (\<lambda>(s, dir, filler, buffer, offset, off).
        (case far_datasize s (entry dir) of Inl c \<Rightarrow> 0 | Inr n \<Rightarrow> nat (uint n + 2 - off)))")
     auto

definition readdir_dotdot ::
  "far_state \<Rightarrow> far_dir_t \<Rightarrow> 'b fuse_fill_dir_t \<Rightarrow> 'b \<Rightarrow> int \<Rightarrow> crash + (int \<times> 'b)" where
  "readdir_dotdot s dir filler buffer offset =
     (if offset = 1
      then bind_res (far_fill_stat s (parent dir)) (\<lambda>st.
             case filler buffer ''..'' st (offset + 1) of
               (buffer', full) \<Rightarrow>
                 if full \<noteq> 0 then Inr (0, buffer')
                 else readdir_loop s dir filler buffer' (offset + 1) 2)
      else readdir_loop s dir filler buffer offset 2)"

definition readdir_dot ::
  "far_state \<Rightarrow> far_dir_t \<Rightarrow> 'b fuse_fill_dir_t \<Rightarrow> 'b \<Rightarrow> int \<Rightarrow> crash + (int \<times> 'b)" where
  "readdir_dot s dir filler buffer offset =
     (if offset = 0
      then bind_res (far_fill_stat s (entry dir)) (\<lambda>st.
             case filler buffer ''.'' st (offset + 1) of
               (buffer', full) \<Rightarrow>
                 if full \<noteq> 0 then Inr (0, buffer')
                 else readdir_dotdot s dir filler buffer' (offset + 1))
      else readdir_dotdot s dir filler buffer offset)"

definition far_readdir ::
  "far_state \<Rightarrow> 'b \<Rightarrow> 'b fuse_fill_dir_t \<Rightarrow> int \<Rightarrow> fuse_file_info \<Rightarrow> crash + (int \<times> 'b)" where
  "far_readdir s buffer filler offset fi =
     (case fh fi of
        DirHandle d \<Rightarrow>
          (case dirs s d of
             None \<Rightarrow> Inl Fault
           | Some dir \<Rightarrow> readdir_dot s dir filler buffer offset)
      | _ \<Rightarrow> Inl Fault)"

definition far_open ::
  "far_state \<Rightarrow> string \<Rightarrow> fuse_file_info \<Rightarrow> crash + (int \<times> fuse_file_info)" where
  "far_open s path fi =
     bind_res (far_traverse_path s path) (\<lambda>(r, par).
       case r of
         None \<Rightarrow>
           if fi_flags fi AND O_CREAT \<noteq> 0 then Inr (- EROFS, fi)
           else Inr (- ENOENT, fi)
       | Some e \<Rightarrow>
           if fi_flags fi AND O_ACCMODE = O_RDWR then Inr (- EACCES, fi)
           else if fi_flags fi AND O_ACCMODE = O_WRONLY then Inr (- EACCES, fi)
           else Inr (0, fi\<lparr>fh := EntryHandle e, keep_cache := 0\<rparr>))"

text \<open>\<^verbatim>\<open>memcpy\<close> out of the mapping: the bytes copied into the caller's buffer.\<close>

definition memcpy_from :: "char list \<Rightarrow> nat \<Rightarrow> nat \<Rightarrow> crash + char list" where
  "memcpy_from m src n = (if src + n \<le> length m then Inr (take n (drop src m)) else Inl Fault)"

text \<open>
  \<^verbatim>\<open>size\<close> is a \<^verbatim>\<open>size_t\<close> and \<^verbatim>\<open>offset\<close> an \<^verbatim>\<open>off_t\<close>, both 64 bits wide, the second
  signed. \<^verbatim>\<open>offset + size\<close> is computed in \<^verbatim>\<open>size_t\<close> and wraps around; the result is
  converted to \<^verbatim>\<open>int\<close>, which keeps the low 32 bits. The result is the return value
  and the bytes written to the buffer.
\<close>

definition far_read ::
  "far_state \<Rightarrow> u64 \<Rightarrow> u64 \<Rightarrow> fuse_file_info \<Rightarrow> crash + (int \<times> char list)" where
  "far_read s size_arg offset fi =
     (case fh fi of
        EntryHandle e \<Rightarrow>
          if sint offset < 0 then Inr (- EINVAL, [])
          else bind_res (far_datasize s e) (\<lambda>dsz.
            if uint dsz \<le> sint offset then Inr (0, [])
            else
              let sz = (if (ucast dsz :: u64) < offset + size_arg
                        then (ucast dsz :: u64) - offset else size_arg)
              in bind_res (far_data s e) (\<lambda>data.
                 bind_res (memcpy_from (far_mapping s) (data + unat offset) (unat sz)) (\<lambda>bytes.
                   Inr (sint (ucast sz :: u32), bytes))))
      | _ \<Rightarrow> Inl Fault)"

text \<open>The \<^verbatim>\<open>int\<close> that a byte count below \<open>2 ^ 32\<close> becomes when \<^verbatim>\<open>far_read\<close> returns it.\<close>

definition to_int_result :: "nat \<Rightarrow> int" where
  "to_int_result k = (if k < 2 ^ 31 then int k else int k - 2 ^ 32)"

text \<open>The argument \<open>m\<close> is what \<^verbatim>\<open>malloc\<close> returns in \<^verbatim>\<open>far_dir_new\<close>.\<close>

definition far_opendir ::
  "far_state \<Rightarrow> nat option \<Rightarrow> string \<Rightarrow> fuse_file_info
     \<Rightarrow> crash + (far_state \<times> int \<times> fuse_file_info)" where
  "far_opendir s m path fi =
     bind_res (far_traverse_path s path) (\<lambda>(r, par).
       case r of
         None \<Rightarrow> Inr (s, - ENOENT, fi)
       | Some e \<Rightarrow>
           bind_res (far_type s e) (\<lambda>t.
             if t \<noteq> FAR_DIR_TYPE then Inr (s, - ENOTDIR, fi)
             else (case far_dir_new s m par e of
                     (s', None) \<Rightarrow> Inr (s', - ENOMEM, fi)
                   | (s', Some d) \<Rightarrow> Inr (s', 0, fi\<lparr>fh := DirHandle d\<rparr>))))"

text \<open>\<^verbatim>\<open>free(dir)\<close>; \<^verbatim>\<open>free(NULL)\<close> does nothing.\<close>

definition far_releasedir :: "far_state \<Rightarrow> fuse_file_info \<Rightarrow> crash + (far_state \<times> int)" where
  "far_releasedir s fi =
     (case fh fi of
        DirHandle d \<Rightarrow>
          (case dirs s d of
             None \<Rightarrow> Inl Fault
           | Some dir \<Rightarrow> Inr (s\<lparr>dirs := (dirs s)(d := None)\<rparr>, 0))
      | NoHandle \<Rightarrow> Inr (s, 0)
      | EntryHandle e \<Rightarrow> Inl Fault)"

subsection \<open>Start-up and dispatch\<close>

text \<open>
  What \<^verbatim>\<open>main\<close> does with the mapped file before the FUSE loop: \<open>None\<close> is
  \<^verbatim>\<open>EXIT_FAILURE\<close>. The initialiser of \<^verbatim>\<open>dummy_root\<close> and the one assignment to it.
\<close>

definition dummy_root_init :: FARentry_t where
  "dummy_root_init =
     \<lparr>flags = FAR_DIR_TYPE, nameoff = 0, dataoff = word_of_nat offsetof_rootdir, size_fld = 0\<rparr>"

definition far_startup ::
  "char list \<Rightarrow> int \<Rightarrow> int \<Rightarrow> int \<Rightarrow> int \<Rightarrow> int \<Rightarrow> crash + far_state option" where
  "far_startup file atime mtime ctime uid gid =
     bind_res (load32 file 0) (\<lambda>magic.
       if magic \<noteq> FAR_MAGIC then Inr None
       else bind_res (load32 file 4) (\<lambda>version.
         if version \<noteq> 0 then Inr None
         else bind_res (load32 file 16) (\<lambda>rootentries.
           Inr (Some \<lparr>far_mapping = file,
                      dummy_root = dummy_root_init\<lparr>size_fld := rootentries\<rparr>,
                      far_atime = atime, far_mtime = mtime, far_ctime = ctime,
                      proc_uid = uid, proc_gid = gid, dirs = Map.empty\<rparr>))))"

text \<open>The table \<^verbatim>\<open>far_ops\<close>: one request of the FUSE loop, and what it leaves behind.\<close>

datatype 'b request =
    Getattr string
  | Open string fuse_file_info
  | Opendir "nat option" string fuse_file_info
  | Read u64 u64 fuse_file_info
  | Readdir 'b "'b fuse_fill_dir_t" int fuse_file_info
  | Releasedir fuse_file_info

datatype 'b reply =
    GetattrReply int "stat option"
  | OpenReply int fuse_file_info
  | ReadReply int "char list"
  | ReaddirReply int 'b
  | ReleasedirReply int

definition far_ops :: "far_state \<Rightarrow> 'b request \<Rightarrow> crash + (far_state \<times> 'b reply)" where
  "far_ops s rq =
     (case rq of
        Getattr path \<Rightarrow>
          bind_res (far_getattr s path) (\<lambda>(rc, st). Inr (s, GetattrReply rc st))
      | Open path fi \<Rightarrow>
          bind_res (far_open s path fi) (\<lambda>(rc, fi'). Inr (s, OpenReply rc fi'))
      | Opendir m path fi \<Rightarrow>
          bind_res (far_opendir s m path fi) (\<lambda>(s', rc, fi'). Inr (s', OpenReply rc fi'))
      | Read size_arg offset fi \<Rightarrow>
          bind_res (far_read s size_arg offset fi) (\<lambda>(rc, bytes). Inr (s, ReadReply rc bytes))
      | Readdir buffer filler offset fi \<Rightarrow>
          bind_res (far_readdir s buffer filler offset fi)
            (\<lambda>(rc, buffer'). Inr (s, ReaddirReply rc buffer'))
      | Releasedir fi \<Rightarrow>
          bind_res (far_releasedir s fi) (\<lambda>(s', rc). Inr (s', ReleasedirReply rc)))"

subsection \<open>The consumer of \<^verbatim>\<open>far_readdir\<close>\<close>

text \<open>
  The filler belongs to the FUSE library. By its contract it returns 1 and leaves the
  buffer alone when the entry does not fit, and otherwise appends the entry (name,
  attributes, next offset) and returns 0. What fits is up to the library: here a
  predicate \<open>full\<close> on the content of the buffer and the entry offered.
\<close>

type_synonym dirent = "string \<times> stat \<times> int"

definition fuse_filler :: "(dirent list \<Rightarrow> dirent \<Rightarrow> bool) \<Rightarrow> dirent list fuse_fill_dir_t" where
  "fuse_filler full buffer name st off =
     (if full buffer (name, st, off) then (buffer, 1) else (buffer @ [(name, st, off)], 0))"

text \<open>The buffer after the entries of a list were offered in turn, up to the first refusal.\<close>

fun feed :: "(dirent list \<Rightarrow> dirent \<Rightarrow> bool) \<Rightarrow> dirent list \<Rightarrow> dirent list \<Rightarrow> dirent list" where
  "feed full buffer [] = buffer"
| "feed full buffer (e # es) = (if full buffer e then buffer else feed full (buffer @ [e]) es)"

text \<open>
  The library resumes a listing at the offset that came with the last entry it took.
  \<open>list_directory\<close> is a sequence of \<^verbatim>\<open>far_readdir\<close> calls on one handle, each with an
  empty buffer and a filler of its own, and returns the entries taken, in order.
\<close>

definition next_cursor :: "int \<Rightarrow> dirent list \<Rightarrow> int" where
  "next_cursor c got = (case got of [] \<Rightarrow> c | _ \<Rightarrow> snd (snd (last got)))"

fun list_directory ::
  "far_state \<Rightarrow> fuse_file_info \<Rightarrow> int \<Rightarrow> (dirent list \<Rightarrow> dirent \<Rightarrow> bool) list
     \<Rightarrow> crash + dirent list" where
  "list_directory s fi c [] = Inr []"
| "list_directory s fi c (full # fs) =
     (case far_readdir s [] (fuse_filler full) c fi of
        Inl x \<Rightarrow> Inl x
      | Inr (rc, got) \<Rightarrow>
         (case list_directory s fi (next_cursor c got) fs of
            Inl x \<Rightarrow> Inl x
          | Inr rest \<Rightarrow> Inr (got @ rest)))"

text \<open>
  The listing of an open directory as the specification describes it: \<^verbatim>\<open>.\<close> with the
  attributes of the directory and next offset 1, \<^verbatim>\<open>..\<close> with the attributes of the
  captured parent and next offset 2, then the children in the order of the table, the
  \<open>i\<close>-th with its name, its attributes and next offset \<open>i + 3\<close>.
\<close>

primrec sequence_res :: "(crash + 'a) list \<Rightarrow> crash + 'a list" where
  "sequence_res [] = Inr []"
| "sequence_res (r # rs) =
     bind_res r (\<lambda>x. bind_res (sequence_res rs) (\<lambda>xs. Inr (x # xs)))"

definition child_dirent :: "far_state \<Rightarrow> far_dir_t \<Rightarrow> nat \<Rightarrow> crash + dirent" where
  "child_dirent s dir i =
     bind_res (far_children s (entry dir)) (\<lambda>children.
     bind_res (far_fill_stat s (child_at children i)) (\<lambda>st.
     bind_res (far_name s (child_at children i)) (\<lambda>name.
     bind_res (c_string (far_mapping s) name) (\<lambda>nm. Inr (nm, st, int i + 3)))))"

definition dir_listing :: "far_state \<Rightarrow> far_dir_t \<Rightarrow> crash + dirent list" where
  "dir_listing s dir =
     bind_res (far_fill_stat s (entry dir)) (\<lambda>st0.
     bind_res (far_fill_stat s (parent dir)) (\<lambda>st1.
     bind_res (far_datasize s (entry dir)) (\<lambda>n.
     bind_res (sequence_res (map (child_dirent s dir) [0..<unat n])) (\<lambda>cs.
       Inr ((''.'', st0, 1) # (''..'', st1, 2) # cs)))))"

subsection \<open>An archive\<close>

text \<open>
  The root holds the file \<^verbatim>\<open>hello.txt\<close> (payload \<^verbatim>\<open>abcd\<close>) and the directory \<^verbatim>\<open>sub\<close>,
  whose children are the empty directory \<^verbatim>\<open>d1\<close>, the file \<^verbatim>\<open>f1\<close> (payload \<^verbatim>\<open>xy\<close>) and
  the empty directory \<^verbatim>\<open>d2\<close>. The five records follow the header, at the offsets 20,
  36, 52, 68 and 84; the names start at 100, the payloads at 123.
\<close>

definition le32 :: "nat \<Rightarrow> char list" where
  "le32 n = [char_of n, char_of (n div 256), char_of (n div 65536), char_of (n div 16777216)]"

definition far_record :: "nat \<Rightarrow> nat \<Rightarrow> nat \<Rightarrow> nat \<Rightarrow> char list" where
  "far_record fl nm dt sz = le32 fl @ le32 nm @ le32 dt @ le32 sz"

definition example_image :: "char list" where
  "example_image =
     ''FAR'' @ [CHR 0x00] @ le32 0 @ le32 5 @ le32 0 @ le32 2
     @ far_record 0 100 123 4
     @ far_record 1 110 52 3
     @ far_record 1 114 0 0
     @ far_record 0 117 127 2
     @ far_record 1 120 0 0
     @ ''hello.txt'' @ [CHR 0x00] @ ''sub'' @ [CHR 0x00]
     @ ''d1'' @ [CHR 0x00] @ ''f1'' @ [CHR 0x00] @ ''d2'' @ [CHR 0x00]
     @ ''abcd'' @ ''xy''"

definition example_state :: far_state where
  "example_state =
     \<lparr>far_mapping = example_image,
      dummy_root = \<lparr>flags = 1, nameoff = 0, dataoff = 20, size_fld = 2\<rparr>,
      far_atime = 0, far_mtime = 0, far_ctime = 0,
      proc_uid = 1000, proc_gid = 1000, dirs = Map.empty\<rparr>"

text \<open>The same after \<^verbatim>\<open>far_opendir\<close> on \<^verbatim>\<open>/sub\<close>, with the handle allocated at address 7.\<close>

definition example_open_state :: far_state where
  "example_open_state =
     example_state\<lparr>dirs := [7 \<mapsto> \<lparr>parent = Root, entry = At 36\<rparr>]\<rparr>"

definition example_fi :: "u32 \<Rightarrow> fuse_file_info" where
  "example_fi fl = \<lparr>fi_flags = fl, fh = NoHandle, keep_cache = 0\<rparr>"

section \<open>Properties\<close>

subsection \<open>Evaluation and basic facts\<close>

declare nlink_loop.simps [simp del] scan_component.simps [simp del]
  scan_final.simps [simp del] traverse_loop.simps [simp del] readdir_loop.simps [simp del]

lemmas accessor_defs =
  entry_flags_def entry_size_def entry_dataoff_def entry_nameoff_def far_type_def
  far_children_def far_data_def far_name_def far_datasize_def bind_res_def child_at_def
  sizeof_FARentry_t_def offsetof_rootdir_def FAR_DIR_TYPE_def FAR_FILE_TYPE_def

lemmas example_eval =
  accessor_defs load32_def
  example_state_def example_image_def far_record_def le32_def
  c_string_def c_strlen_def c_memcmp_eq_def memcpy_from_def
  nlink_loop.simps scan_component.simps scan_final.simps traverse_loop.simps
  far_traverse_path_def

lemma example_state_startup:
  "far_startup example_image 0 0 0 1000 1000 = Inr (Some example_state)"
  by (simp add: example_eval far_startup_def FAR_MAGIC_def dummy_root_init_def)

lemma strchr_append:
  "strchr cpt c = None \<Longrightarrow> strchr (cpt @ c # rest) c = Some (length cpt)"
  by (induction cpt) (auto split: if_splits option.splits)

lemma far_children_not_dir:
  "far_type s e = Inr t \<Longrightarrow> t \<noteq> FAR_DIR_TYPE \<Longrightarrow> far_children s e = Inl Abort"
  by (simp add: far_children_def bind_res_def)

lemma scan_component_abort:
  "far_children s dir = Inl Abort \<Longrightarrow> 0 < n \<Longrightarrow> scan_component s dir cpt n 0 = Inl Abort"
  by (subst scan_component.simps) simp

lemma scan_final_abort:
  "far_children s dir = Inl Abort \<Longrightarrow> 0 < n \<Longrightarrow> scan_final s dir path n 0 = Inl Abort"
  by (subst scan_final.simps) simp

lemma traverse_loop_abort:
  assumes "far_datasize s dir = Inr m" and "m \<noteq> 0" and "far_children s dir = Inl Abort"
  shows "traverse_loop s par dir path = Inl Abort"
proof -
  from \<open>m \<noteq> 0\<close> have pos: "0 < unat m"
    by (simp add: unat_gt_0)
  show ?thesis
    using assms(1) scan_component_abort [OF assms(3) pos] scan_final_abort [OF assms(3) pos]
    by (subst traverse_loop.simps) (simp split: option.split)
qed

lemma traverse_loop_descend:
  assumes "strchr cpt CHR ''/'' = None"
    and "far_datasize s dir = Inr n"
    and "scan_component s dir cpt (unat n) 0 = Inr (Some e)"
  shows "traverse_loop s par dir (cpt @ CHR ''/'' # rest) = traverse_loop s dir e rest"
  using assms(2,3) strchr_append [OF assms(1), of rest]
  by (subst traverse_loop.simps) simp

lemma far_ops_dirs_only:
  "far_ops s rq = Inr (s', r) \<Longrightarrow> s'\<lparr>dirs := dirs s\<rparr> = s"
  by (cases rq)
     (auto simp: far_ops_def bind_res_def far_opendir_def far_releasedir_def far_dir_new_def
      split: sum.splits option.splits prod.splits if_splits fh_t.splits)

lemma readdir_loop_past:
  assumes "far_datasize s (entry dir) = Inr n" and "uint n + 2 \<le> offset"
  shows "readdir_loop s dir filler buffer offset off = Inr (0, buffer)"
  using assms
proof (induction s dir filler buffer offset off rule: readdir_loop.induct)
  case (1 s dir filler buffer offset off)
  show ?case
  proof (cases "off - 2 < uint n")
    case True
    then have ne: "off \<noteq> offset"
      using "1.prems" by simp
    show ?thesis
      using "1.IH"(2) [OF "1.prems"(1) True ne "1.prems"] "1.prems"(1) True ne
      by (subst readdir_loop.simps) simp
  next
    case False
    then show ?thesis
      using "1.prems"(1) by (subst readdir_loop.simps) simp
  qed
qed

lemma far_type_in_bounds:
  "a + 4 \<le> length (far_mapping s) \<Longrightarrow> \<exists>t. far_type s (At a) = Inr t"
  by (simp add: far_type_def entry_flags_def load32_def bind_res_def)

lemma nlink_loop_count:
  assumes "children + sizeof_FARentry_t * n \<le> length (far_mapping s)"
  shows "i \<le> n \<Longrightarrow> nlink_loop s children n i nl =
     Inr (nl + int (length (filter (\<lambda>j. far_type s (child_at children j) = Inr FAR_DIR_TYPE) [i..<n])))"
proof (induction "n - i" arbitrary: i nl)
  case 0
  then show ?case
    by (subst nlink_loop.simps) simp
next
  case (Suc k)
  then have lt: "i < n" by simp
  then have "children + sizeof_FARentry_t * i + 4 \<le> length (far_mapping s)"
    using assms by (simp add: sizeof_FARentry_t_def)
  then obtain t where t: "far_type s (child_at children i) = Inr t"
    using far_type_in_bounds [of "children + sizeof_FARentry_t * i" s] by (auto simp: child_at_def)
  have k: "k = n - (i + 1)" and le: "i + 1 \<le> n"
    using Suc.hyps(2) lt by simp_all
  show ?case
    using Suc.hyps(1) [OF k le] t lt
    by (subst nlink_loop.simps) (simp add: upt_conv_Cons)
qed

lemma far_fill_stat_ino: "far_fill_stat s e = Inr st \<Longrightarrow> st_ino st = entry_ino e"
  by (auto simp: far_fill_stat_def bind_res_def Let_def split: sum.splits if_splits)

lemma far_fill_stat_readable:
  "far_fill_stat s (At a) = Inr st \<Longrightarrow> a + 4 \<le> length (far_mapping s)"
  by (auto simp: far_fill_stat_def far_type_def entry_flags_def load32_def bind_res_def
      split: sum.splits if_splits)

lemma entry_ino_table:
  assumes "offsetof_rootdir + sizeof_FARentry_t * i < 2 ^ 64"
  shows "entry_ino (child_at offsetof_rootdir i) = int i + 2"
proof -
  have "(int (20 + 16 * i) - 20) div 16 = int i"
    by simp
  moreover have "int i + 2 < 2 ^ 64"
    using assms by (simp add: offsetof_rootdir_def sizeof_FARentry_t_def)
  ultimately show ?thesis
    by (simp add: entry_ino_def child_at_def offsetof_rootdir_def sizeof_FARentry_t_def)
qed

lemma accessors_dirs:
  "entry_flags (s\<lparr>dirs := d\<rparr>) e = entry_flags s e"
  "entry_nameoff (s\<lparr>dirs := d\<rparr>) e = entry_nameoff s e"
  "entry_dataoff (s\<lparr>dirs := d\<rparr>) e = entry_dataoff s e"
  "entry_size (s\<lparr>dirs := d\<rparr>) e = entry_size s e"
  by (cases e; simp add: entry_flags_def entry_nameoff_def entry_dataoff_def entry_size_def)+

lemma far_type_dirs: "far_type (s\<lparr>dirs := d\<rparr>) e = far_type s e"
  by (simp add: far_type_def accessors_dirs)

lemma nlink_loop_dirs:
  "nlink_loop (s\<lparr>dirs := d\<rparr>) children n i nl = nlink_loop s children n i nl"
proof (induction s children n i nl rule: nlink_loop.induct)
  case (1 s children n i nl)
  show ?case
    using "1.IH"
    by (subst (1 2) nlink_loop.simps) (simp add: far_type_dirs split: sum.splits)
qed

lemma far_datasize_dirs: "far_datasize (s\<lparr>dirs := d\<rparr>) e = far_datasize s e"
  by (simp add: far_datasize_def accessors_dirs)

lemma far_children_dirs: "far_children (s\<lparr>dirs := d\<rparr>) e = far_children s e"
  by (simp add: far_children_def far_data_def far_type_dirs accessors_dirs cong: if_cong)

lemma far_fill_stat_dirs: "far_fill_stat (s\<lparr>dirs := d\<rparr>) e = far_fill_stat s e"
  by (simp add: far_fill_stat_def far_type_dirs far_datasize_dirs far_children_dirs
      nlink_loop_dirs cong: if_cong)

lemma far_fill_stat_after:
  assumes "far_ops s rq = Inr (s', r)"
  shows "far_fill_stat s' e = far_fill_stat s e"
proof -
  have "far_fill_stat (s'\<lparr>dirs := dirs s\<rparr>) e = far_fill_stat s' e"
    by (rule far_fill_stat_dirs)
  then show ?thesis
    using far_ops_dirs_only [OF assms] by simp
qed

lemma sint_nonneg_unat:
  fixes offset :: u64
  assumes "0 \<le> sint offset"
  shows "sint offset = int (unat offset)"
proof -
  have "sint offset < 2 ^ 64"
    using sint_lt [of offset] by simp
  then have "take_bit 64 (sint offset) = sint offset"
    using assms by (simp add: take_bit_int_eq_self)
  then have "uint offset = sint offset"
    using uint_sint [of offset] by simp
  then show ?thesis
    by simp
qed

lemma unat_ucast_u32_u64: "unat (ucast (w :: u32) :: u64) = unat w"
proof -
  have "unat w < 2 ^ 32"
    using unsigned_less [of w] by simp
  then have "unat w < 2 ^ 64"
    by simp
  then have "take_bit 64 (unat w) = unat w"
    by (simp add: take_bit_nat_eq_self)
  then show ?thesis
    by (simp add: unsigned_ucast_eq)
qed

lemma far_read_size:
  fixes offset size_arg :: u64 and dsz :: u32
  assumes "0 \<le> sint offset" and "sint offset < uint dsz"
    and "unat offset + unat size_arg < 2 ^ 64"
  shows "unat (if (ucast dsz :: u64) < offset + size_arg
               then (ucast dsz :: u64) - offset else size_arg)
         = min (unat size_arg) (unat dsz - unat offset)"
proof -
  have o: "sint offset = int (unat offset)"
    by (rule sint_nonneg_unat [OF assms(1)])
  have "int (unat offset) < int (unat dsz)"
    using assms(2) o by simp
  then have lt: "unat offset < unat dsz"
    by linarith
  have uc: "unat (ucast dsz :: u64) = unat dsz"
    by (rule unat_ucast_u32_u64)
  have "unat offset + unat size_arg < 2 ^ LENGTH(64)"
    using assms(3) by simp
  then have sum: "unat (offset + size_arg) = unat offset + unat size_arg"
    by (rule unat_add_lem [THEN iffD1])
  have le: "offset \<le> (ucast dsz :: u64)"
    using lt uc by (simp add: word_le_nat_alt)
  have sub: "unat ((ucast dsz :: u64) - offset) = unat dsz - unat offset"
    using unat_sub [OF le] uc by simp
  have cond: "(ucast dsz :: u64) < offset + size_arg \<longleftrightarrow> unat dsz < unat offset + unat size_arg"
    using uc sum by (simp add: word_less_nat_alt)
  show ?thesis
  proof (cases "(ucast dsz :: u64) < offset + size_arg")
    case True
    then show ?thesis
      using cond sub lt by (simp add: min_def)
  next
    case False
    then show ?thesis
      using cond lt by (simp add: min_def)
  qed
qed

lemma unat_less_uint: "unat w < n \<longleftrightarrow> uint w < int n"
proof -
  have "unat w < n \<longleftrightarrow> int (unat w) < int n"
    by (simp only: of_nat_less_iff)
  then show ?thesis
    by simp
qed

lemma sint_ucast_small:
  fixes sz :: u64
  assumes "unat sz < 2 ^ 32"
  shows "sint (ucast sz :: u32) = (if unat sz < 2 ^ 31 then uint sz else uint sz - 2 ^ 32)"
proof -
  have lt: "uint sz < 2 ^ 32"
    using assms by (simp add: unat_less_uint)
  have "take_bit 32 (uint sz) = uint sz"
    using lt by (simp add: take_bit_int_eq_self)
  then have "uint (ucast sz :: u32) = uint sz"
    by (simp add: unsigned_ucast_eq)
  then have s: "sint (ucast sz :: u32) = signed_take_bit 31 (uint sz)"
    using sint_uint [of "ucast sz :: u32"] by simp
  show ?thesis
  proof (cases "unat sz < 2 ^ 31")
    case True
    then have b: "uint sz < 2 ^ 31"
      by (simp add: unat_less_uint)
    have a: "- (2 ^ 31) \<le> uint sz"
      by (rule order_trans [of _ 0]) simp_all
    have "signed_take_bit 31 (uint sz) = uint sz"
      by (rule signed_take_bit_int_eq_self [OF a b])
    then show ?thesis
      using s True by simp
  next
    case False
    then have ge: "2 ^ 31 \<le> uint sz"
      by (simp add: unat_less_uint)
    have "take_bit 32 (uint sz + 2 ^ 31) = (uint sz + 2 ^ 31) mod 2 ^ 32"
      by (simp add: take_bit_eq_mod)
    also have "\<dots> = uint sz + 2 ^ 31 - 2 ^ 32"
      using ge lt by (simp add: mod_pos_geq mod_pos_pos_trivial)
    finally have "signed_take_bit 31 (uint sz) = uint sz - 2 ^ 32"
      by (simp add: signed_take_bit_eq_take_bit_shift)
    then show ?thesis
      using s False by simp
  qed
qed


lemma far_read_in_range:
  fixes offset size_arg :: u64
  assumes "fh fi = EntryHandle e"
    and "far_datasize s e = Inr dsz" and "far_data s e = Inr data"
    and "data + unat dsz \<le> length (far_mapping s)"
    and "0 \<le> sint offset" and "sint offset < uint dsz"
    and "unat offset + unat size_arg < 2 ^ 64"
  shows "far_read s size_arg offset fi =
     Inr (to_int_result (min (unat size_arg) (unat dsz - unat offset)),
          take (min (unat size_arg) (unat dsz - unat offset))
            (drop (data + unat offset) (far_mapping s)))"
proof -
  define sz where "sz = (if (ucast dsz :: u64) < offset + size_arg
                         then (ucast dsz :: u64) - offset else size_arg)"
  define k where "k = min (unat size_arg) (unat dsz - unat offset)"
  have k: "unat sz = k"
    unfolding sz_def k_def by (rule far_read_size [OF assms(5,6,7)])
  have "int (unat offset) < int (unat dsz)"
    using assms(6) sint_nonneg_unat [OF assms(5)] by simp
  then have lt: "unat offset < unat dsz"
    by linarith
  then have kle: "unat offset + k \<le> unat dsz"
    by (simp add: k_def)
  have "unat dsz < 2 ^ 32"
    using unsigned_less [of dsz] by simp
  with kle have "unat sz < 2 ^ 32"
    using k by simp
  moreover have "uint sz = int k"
    using uint_nat [of sz] k by (simp only:)
  ultimately have rc: "sint (ucast sz :: u32) = to_int_result k"
    using sint_ucast_small [of sz] k by (simp add: to_int_result_def)
  have cp: "memcpy_from (far_mapping s) (data + unat offset) (unat sz)
      = Inr (take k (drop (data + unat offset) (far_mapping s)))"
    using kle assms(4) k by (simp add: memcpy_from_def)
  have "far_read s size_arg offset fi =
      Inr (sint (ucast sz :: u32), take k (drop (data + unat offset) (far_mapping s)))"
    using assms(1,2,3,5,6) cp
    by (simp add: far_read_def bind_res_def sz_def Let_def)
  then show ?thesis
    using rc by (simp add: k_def)
qed

lemmas flag_defs = O_WRONLY_def O_CREAT_def O_RDONLY_def O_ACCMODE_def O_RDWR_def
lemmas errno_defs = ENOENT_def EACCES_def EROFS_def ENOTDIR_def EINVAL_def ENOMEM_def

subsection \<open>Path resolution\<close>

text \<open>
  C1. The claim: resolution fails when an intermediate component matches no child of
  the current directory. The loop over the intermediate components has no branch for a
  component that no child matches: it leaves the current directory as it is and goes
  on to the next component. In the example archive the path \<^verbatim>\<open>/missing/hello.txt\<close>
  resolves to the record of \<^verbatim>\<open>/hello.txt\<close>, at offset 20, although the root has no
  child \<^verbatim>\<open>missing\<close>.
\<close>

theorem traverse_skips_unmatched_component:
  "far_traverse_path example_state ''/missing/hello.txt'' = Inr (Some (At 20), Root)
   \<and> far_traverse_path example_state ''/hello.txt'' = Inr (Some (At 20), Root)
   \<and> scan_component example_state Root ''missing'' 2 0 = Inr None"
  by (simp add: example_eval)

text \<open>
  C2. When the first component of a path matches a child of the root that is not a
  directory and whose size field is not zero, and the path goes on after that component,
  the resolver descends into the child and the next call of \<^verbatim>\<open>far_children\<close> aborts
  the process: resolution returns no error code, and neither do \<^verbatim>\<open>far_getattr\<close>,
  \<^verbatim>\<open>far_open\<close> and \<^verbatim>\<open>far_opendir\<close> on that path.
\<close>

theorem traverse_aborts_below_file:
  assumes "strchr cpt CHR ''/'' = None"
    and "far_datasize s Root = Inr n"
    and "scan_component s Root cpt (unat n) 0 = Inr (Some e)"
    and "far_type s e = Inr t" and "t \<noteq> FAR_DIR_TYPE"
    and "far_datasize s e = Inr m" and "m \<noteq> 0"
  shows "far_traverse_path s (CHR ''/'' # cpt @ CHR ''/'' # rest) = Inl Abort
       \<and> far_getattr s (CHR ''/'' # cpt @ CHR ''/'' # rest) = Inl Abort
       \<and> far_open s (CHR ''/'' # cpt @ CHR ''/'' # rest) fi = Inl Abort
       \<and> far_opendir s ma (CHR ''/'' # cpt @ CHR ''/'' # rest) fi = Inl Abort"
proof -
  have "traverse_loop s Root Root (cpt @ CHR ''/'' # rest) = traverse_loop s Root e rest"
    by (rule traverse_loop_descend [OF assms(1,2,3)])
  also have "\<dots> = Inl Abort"
    by (rule traverse_loop_abort [OF assms(6,7) far_children_not_dir [OF assms(4,5)]])
  finally have "far_traverse_path s (CHR ''/'' # cpt @ CHR ''/'' # rest) = Inl Abort"
    by (simp add: far_traverse_path_def)
  then show ?thesis
    by (simp add: far_getattr_def far_open_def far_opendir_def bind_res_def)
qed

theorem traverse_aborts_below_file_witness:
  "far_startup example_image 0 0 0 1000 1000 = Inr (Some example_state)
   \<and> scan_component example_state Root ''hello.txt'' 2 0 = Inr (Some (At 20))
   \<and> far_type example_state (At 20) = Inr FAR_FILE_TYPE
   \<and> far_datasize example_state (At 20) = Inr 4
   \<and> far_traverse_path example_state ''/hello.txt/x'' = Inl Abort
   \<and> far_getattr example_state ''/hello.txt/x'' = Inl Abort
   \<and> far_open example_state ''/hello.txt/x'' \<lparr>fi_flags = O_RDONLY, fh = NoHandle, keep_cache = 0\<rparr>
       = Inl Abort
   \<and> far_opendir example_state (Some 0) ''/hello.txt/x''
         \<lparr>fi_flags = O_RDONLY, fh = NoHandle, keep_cache = 0\<rparr>
       = Inl Abort"
proof -
  have h1: "strchr ''hello.txt'' CHR ''/'' = None"
    by simp
  have h2: "far_datasize example_state Root = Inr 2"
    by (simp add: example_eval)
  have h3: "scan_component example_state Root ''hello.txt'' (unat (2 :: u32)) 0 = Inr (Some (At 20))"
    by (simp add: example_eval)
  have h4: "far_type example_state (At 20) = Inr 0"
    by (simp add: example_eval)
  have h5: "(0 :: u32) \<noteq> FAR_DIR_TYPE"
    by (simp add: FAR_DIR_TYPE_def)
  have h6: "far_datasize example_state (At 20) = Inr 4"
    by (simp add: example_eval)
  have h7: "(4 :: u32) \<noteq> 0"
    by simp
  show ?thesis
    using traverse_aborts_below_file [OF h1 h2 h3 h4 h5 h6 h7, of "''x''"
        "\<lparr>fi_flags = O_RDONLY, fh = NoHandle, keep_cache = 0\<rparr>" "Some 0"]
      h3 h4 h6 example_state_startup
    by (simp add: FAR_FILE_TYPE_def)
qed

subsection \<open>Opening files\<close>

text \<open>
  C7, as the code has it. \<^verbatim>\<open>far_open\<close> looks the path up first. On a path that
  resolves, an access mode of \<^verbatim>\<open>O_RDWR\<close> or \<^verbatim>\<open>O_WRONLY\<close> is refused with \<^verbatim>\<open>EACCES\<close>,
  with or without \<^verbatim>\<open>O_CREAT\<close>, and any other open succeeds; on a path that does not
  resolve the result is \<^verbatim>\<open>EROFS\<close> when \<^verbatim>\<open>O_CREAT\<close> is set and \<^verbatim>\<open>ENOENT\<close> otherwise.
  The program state is the same afterwards, and \<^verbatim>\<open>fi\<close> is written on success only.
\<close>

theorem far_open_policy:
  "(far_traverse_path s path = Inr (Some e, par) \<longrightarrow>
      far_ops s (Open path fi) =
        Inr (s, if fi_flags fi AND O_ACCMODE = O_RDWR \<or> fi_flags fi AND O_ACCMODE = O_WRONLY
                then OpenReply (- EACCES) fi
                else OpenReply 0 (fi\<lparr>fh := EntryHandle e, keep_cache := 0\<rparr>)))
   \<and> (far_traverse_path s path = Inr (None, par) \<longrightarrow>
      far_ops s (Open path fi) =
        Inr (s, OpenReply (if fi_flags fi AND O_CREAT \<noteq> 0 then - EROFS else - ENOENT) fi))"
  by (simp add: far_ops_def far_open_def bind_res_def)

theorem far_open_policy_witness:
  "far_traverse_path example_state ''/hello.txt'' = Inr (Some (At 20), Root)
   \<and> far_ops example_state (Open ''/hello.txt'' (example_fi O_WRONLY) :: unit request)
       = Inr (example_state, OpenReply (- EACCES) (example_fi O_WRONLY))
   \<and> far_traverse_path example_state ''/missing'' = Inr (None, Root)
   \<and> far_ops example_state (Open ''/missing'' (example_fi (O_CREAT OR O_WRONLY)) :: unit request)
       = Inr (example_state, OpenReply (- EROFS) (example_fi (O_CREAT OR O_WRONLY)))"
proof -
  have h1: "far_traverse_path example_state ''/hello.txt'' = Inr (Some (At 20), Root)"
    by (simp add: example_eval)
  have h2: "far_traverse_path example_state ''/missing'' = Inr (None, Root)"
    by (simp add: example_eval)
  have m1: "fi_flags (example_fi O_WRONLY) AND O_ACCMODE = O_WRONLY"
    by (simp add: example_fi_def flag_defs)
  have m2: "fi_flags (example_fi (O_CREAT OR O_WRONLY)) AND O_CREAT \<noteq> 0"
    by (simp add: example_fi_def flag_defs)
  show ?thesis
    using far_open_policy [of example_state "''/hello.txt''" "At 20" Root "example_fi O_WRONLY"]
      far_open_policy [of example_state "''/missing''" "At 20" Root
        "example_fi (O_CREAT OR O_WRONLY)"]
      h1 h2 m1 m2
    by simp
qed

text \<open>
  The claim as the specification states it fails twice: a write-mode open of a path that
  does not resolve is answered with \<^verbatim>\<open>ENOENT\<close>, not \<^verbatim>\<open>EACCES\<close>, and an open with
  \<^verbatim>\<open>O_CREAT\<close> of a path that resolves is not answered with \<^verbatim>\<open>EROFS\<close>: it succeeds
  in read-only mode and is answered with \<^verbatim>\<open>EACCES\<close> in write mode.
\<close>

theorem far_open_policy_counterexample:
  "far_open example_state ''/missing'' (example_fi O_WRONLY)
     = Inr (- ENOENT, example_fi O_WRONLY)
   \<and> - ENOENT \<noteq> - EACCES
   \<and> far_open example_state ''/hello.txt'' (example_fi (O_CREAT OR O_RDONLY))
     = Inr (0, (example_fi (O_CREAT OR O_RDONLY))\<lparr>fh := EntryHandle (At 20)\<rparr>)
   \<and> far_open example_state ''/hello.txt'' (example_fi (O_CREAT OR O_WRONLY))
     = Inr (- EACCES, example_fi (O_CREAT OR O_WRONLY))
   \<and> - EACCES \<noteq> - EROFS"
  by (simp add: example_eval far_open_def example_fi_def flag_defs errno_defs)

subsection \<open>The archive is never written\<close>

text \<open>
  C8. Whatever request the dispatch table serves and whatever it answers, the mapping
  (header, records, names and payloads), the root record as start-up left it and the
  time stamps are the same afterwards; only the set of open directory handles changes.
\<close>

theorem far_ops_frame:
  assumes "far_ops s rq = Inr (s', r)"
  shows "far_mapping s' = far_mapping s \<and> dummy_root s' = dummy_root s
       \<and> far_atime s' = far_atime s \<and> far_mtime s' = far_mtime s \<and> far_ctime s' = far_ctime s"
proof -
  have "s'\<lparr>dirs := dirs s\<rparr> = s"
    by (rule far_ops_dirs_only [OF assms])
  then have "far_mapping (s'\<lparr>dirs := dirs s\<rparr>) = far_mapping s"
    and "dummy_root (s'\<lparr>dirs := dirs s\<rparr>) = dummy_root s"
    and "far_atime (s'\<lparr>dirs := dirs s\<rparr>) = far_atime s"
    and "far_mtime (s'\<lparr>dirs := dirs s\<rparr>) = far_mtime s"
    and "far_ctime (s'\<lparr>dirs := dirs s\<rparr>) = far_ctime s"
    by simp_all
  then show ?thesis
    by simp
qed

theorem far_ops_frame_witness:
  "far_ops example_state (Opendir (Some 7) ''/sub'' (example_fi O_RDONLY) :: unit request)
     = Inr (example_open_state, OpenReply 0 ((example_fi O_RDONLY)\<lparr>fh := DirHandle 7\<rparr>))
   \<and> far_mapping example_open_state = far_mapping example_state
   \<and> dummy_root example_open_state = dummy_root example_state
   \<and> far_atime example_open_state = far_atime example_state
   \<and> far_mtime example_open_state = far_mtime example_state
   \<and> far_ctime example_open_state = far_ctime example_state"
proof -
  have t: "far_traverse_path example_state ''/sub'' = Inr (Some (At 36), Root)"
    by (simp add: example_eval)
  have ty: "far_type example_state (At 36) = Inr FAR_DIR_TYPE"
    by (simp add: example_eval)
  have h: "far_ops example_state (Opendir (Some 7) ''/sub'' (example_fi O_RDONLY) :: unit request)
     = Inr (example_open_state, OpenReply 0 ((example_fi O_RDONLY)\<lparr>fh := DirHandle 7\<rparr>))"
    by (simp add: far_ops_def far_opendir_def far_dir_new_def bind_res_def t ty
        example_open_state_def FAR_DIR_TYPE_def)
      (simp add: example_state_def)
  show ?thesis
    using far_ops_frame [OF h] h by simp
qed

subsection \<open>Reading a directory past its end\<close>

text \<open>
  C10. For an open handle on a directory with \<open>n\<close> children and a cursor of at least
  \<open>n + 2\<close>, \<^verbatim>\<open>far_readdir\<close> returns 0 and hands back the buffer as it got it, whatever
  the filler is: the filler is never called.
\<close>

theorem readdir_past_end:
  assumes "fh fi = DirHandle d" and "dirs s d = Some dir"
    and "far_datasize s (entry dir) = Inr n" and "uint n + 2 \<le> offset"
  shows "far_readdir s buffer filler offset fi = Inr (0, buffer)"
proof -
  have "0 \<le> uint n"
    by simp
  with assms(4) have "offset \<noteq> 0" and "offset \<noteq> 1"
    by linarith+
  then show ?thesis
    using assms(1,2) readdir_loop_past [OF assms(3,4)]
    by (simp add: far_readdir_def readdir_dot_def readdir_dotdot_def)
qed

text \<open>The witness counts the calls of the filler in the buffer.\<close>

theorem readdir_past_end_witness:
  "far_datasize example_open_state (At 36) = Inr 3
   \<and> far_readdir example_open_state (0 :: nat) (\<lambda>b nm st off. (b + 1, 0)) 5
        ((example_fi O_RDONLY)\<lparr>fh := DirHandle 7\<rparr>) = Inr (0, 0)"
proof -
  have h1: "fh ((example_fi O_RDONLY)\<lparr>fh := DirHandle 7\<rparr>) = DirHandle 7"
    by simp
  have h2: "dirs example_open_state 7 = Some \<lparr>parent = Root, entry = At 36\<rparr>"
    by (simp add: example_open_state_def)
  have h3: "far_datasize example_open_state (entry \<lparr>parent = Root, entry = At 36\<rparr>) = Inr 3"
    by (simp add: example_open_state_def example_eval)
  have h4: "uint (3 :: u32) + 2 \<le> 5"
    by simp
  show ?thesis
    using readdir_past_end [OF h1 h2 h3 h4, of "0 :: nat" "\<lambda>b nm st off. (b + 1, 0)"] h3
    by simp
qed

subsection \<open>Attributes\<close>

text \<open>
  C5. \<^verbatim>\<open>far_fill_stat\<close> gives an entry that is not a directory the link count 1. For
  a directory whose child array lies inside the mapping it returns, and the link count
  is 2 plus the number of children whose type is \<^verbatim>\<open>FAR_DIR_TYPE\<close>.
\<close>

theorem fill_stat_link_count:
  "(far_type s e = Inr t \<and> t \<noteq> FAR_DIR_TYPE \<and> far_datasize s e = Inr sz \<longrightarrow>
      (\<exists>st. far_fill_stat s e = Inr st \<and> st_nlink st = 1))
   \<and> (far_type s e = Inr FAR_DIR_TYPE \<and> far_datasize s e = Inr n \<and> far_data s e = Inr children
       \<and> children + sizeof_FARentry_t * unat n \<le> length (far_mapping s) \<longrightarrow>
      (\<exists>st. far_fill_stat s e = Inr st
         \<and> st_nlink st = 2 + int (length (filter
              (\<lambda>i. far_type s (child_at children i) = Inr FAR_DIR_TYPE) [0..<unat n]))))"
proof (intro conjI impI)
  assume "far_type s e = Inr t \<and> t \<noteq> FAR_DIR_TYPE \<and> far_datasize s e = Inr sz"
  then show "\<exists>st. far_fill_stat s e = Inr st \<and> st_nlink st = 1"
    by (simp add: far_fill_stat_def bind_res_def Let_def)
next
  assume a: "far_type s e = Inr FAR_DIR_TYPE \<and> far_datasize s e = Inr n
    \<and> far_data s e = Inr children
    \<and> children + sizeof_FARentry_t * unat n \<le> length (far_mapping s)"
  then have ch: "far_children s e = Inr children"
    by (simp add: far_children_def bind_res_def)
  from a have "nlink_loop s children (unat n) 0 2 =
     Inr (2 + int (length (filter (\<lambda>j. far_type s (child_at children j) = Inr FAR_DIR_TYPE)
       [0..<unat n])))"
    by (intro nlink_loop_count) simp_all
  with a ch show "\<exists>st. far_fill_stat s e = Inr st
         \<and> st_nlink st = 2 + int (length (filter
              (\<lambda>i. far_type s (child_at children i) = Inr FAR_DIR_TYPE) [0..<unat n]))"
    by (simp add: far_fill_stat_def bind_res_def Let_def)
qed

text \<open>The directory \<^verbatim>\<open>sub\<close> of the example has the children d1 (directory), f1 (file)
  and d2 (directory): its link count is 4. The file \<^verbatim>\<open>hello.txt\<close> has link count 1.\<close>

theorem fill_stat_link_count_witness:
  "map (\<lambda>i. far_type example_state (child_at 52 i)) [0, 1, 2]
     = [Inr FAR_DIR_TYPE, Inr FAR_FILE_TYPE, Inr FAR_DIR_TYPE]
   \<and> far_children example_state (At 36) = Inr 52
   \<and> far_datasize example_state (At 36) = Inr 3
   \<and> (\<exists>st. far_fill_stat example_state (At 36) = Inr st \<and> st_nlink st = 4)
   \<and> (\<exists>st. far_fill_stat example_state (At 20) = Inr st \<and> st_nlink st = 1)"
proof -
  have tys: "map (\<lambda>i. far_type example_state (child_at 52 i)) [0, 1, 2]
     = [Inr FAR_DIR_TYPE, Inr FAR_FILE_TYPE, Inr FAR_DIR_TYPE]"
    by (simp add: example_eval)
  have ch: "far_children example_state (At 36) = Inr 52"
    by (simp add: example_eval)
  have d: "far_type example_state (At 36) = Inr FAR_DIR_TYPE
    \<and> far_datasize example_state (At 36) = Inr 3
    \<and> far_data example_state (At 36) = Inr 52
    \<and> 52 + sizeof_FARentry_t * unat (3 :: u32) \<le> length (far_mapping example_state)"
    by (simp add: example_eval)
  have f: "far_type example_state (At 20) = Inr 0 \<and> 0 \<noteq> FAR_DIR_TYPE
    \<and> far_datasize example_state (At 20) = Inr 4"
    by (simp add: example_eval)
  have cnt: "length (filter (\<lambda>i. far_type example_state (child_at 52 i) = Inr FAR_DIR_TYPE)
      [0..<unat (3 :: u32)]) = 2"
    by (simp add: example_eval upt_conv_Cons)
  have "\<exists>st. far_fill_stat example_state (At 36) = Inr st \<and> st_nlink st = 4"
    using fill_stat_link_count [where s = example_state and e = "At 36" and n = 3
        and children = 52] d cnt
    by simp
  moreover have "\<exists>st. far_fill_stat example_state (At 20) = Inr st \<and> st_nlink st = 1"
    using fill_stat_link_count [where s = example_state and e = "At 20" and t = 0 and sz = 4] f
    by simp
  ultimately show ?thesis
    using tys ch d by simp
qed

text \<open>
  C6. The inode number is 1 for the root and \<open>i + 2\<close> for the \<open>i\<close>-th record of the
  table that starts at \<^verbatim>\<open>header->rootdir\<close>; records at different indices get different
  numbers, none of them the root's; and the attributes of an entry, the inode number
  among them, are the same after any request the file system serves.
\<close>

theorem fill_stat_inode:
  assumes "length (far_mapping s) < 2 ^ 64"
  shows "(far_fill_stat s Root = Inr st0 \<longrightarrow> st_ino st0 = 1)
    \<and> (far_fill_stat s (child_at offsetof_rootdir i) = Inr st \<longrightarrow> st_ino st = int i + 2)
    \<and> (far_fill_stat s (child_at offsetof_rootdir i) = Inr st
        \<and> far_fill_stat s (child_at offsetof_rootdir j) = Inr st' \<and> i \<noteq> j
        \<longrightarrow> st_ino st \<noteq> st_ino st')
    \<and> (far_fill_stat s (child_at offsetof_rootdir i) = Inr st \<and> far_fill_stat s Root = Inr st0
        \<longrightarrow> st_ino st \<noteq> st_ino st0)
    \<and> (far_ops s rq = Inr (s', r) \<longrightarrow> far_fill_stat s' e = far_fill_stat s e)"
proof -
  have tab: "st_ino x = int k + 2" if "far_fill_stat s (child_at offsetof_rootdir k) = Inr x"
    for x k
  proof -
    have "offsetof_rootdir + sizeof_FARentry_t * k + 4 \<le> length (far_mapping s)"
      using far_fill_stat_readable [of s "offsetof_rootdir + sizeof_FARentry_t * k" x] that
      by (simp add: child_at_def)
    with assms have "offsetof_rootdir + sizeof_FARentry_t * k < 2 ^ 64"
      by simp
    then show ?thesis
      using far_fill_stat_ino [OF that] entry_ino_table by simp
  qed
  have root: "st_ino x = 1" if "far_fill_stat s Root = Inr x" for x
    using far_fill_stat_ino [OF that] by (simp add: entry_ino_def)
  show ?thesis
    using tab root far_fill_stat_after by auto
qed


theorem fill_stat_inode_witness:
  "length (far_mapping example_state) < 2 ^ 64
   \<and> (\<exists>st. far_fill_stat example_state Root = Inr st \<and> st_ino st = 1)
   \<and> (\<exists>st. far_fill_stat example_state (At 68) = Inr st \<and> st_ino st = 5)
   \<and> (\<exists>st. far_fill_stat example_state (At 36) = Inr st \<and> st_ino st = 3)
   \<and> far_fill_stat example_open_state (At 36) = far_fill_stat example_state (At 36)"
proof -
  have len: "length (far_mapping example_state) < 2 ^ 64"
    by (simp add: example_eval)
  obtain st0 where st0: "far_fill_stat example_state Root = Inr st0"
    by (simp add: example_eval far_fill_stat_def Let_def)
  obtain st3 where st3: "far_fill_stat example_state (child_at offsetof_rootdir 3) = Inr st3"
    by (simp add: example_eval far_fill_stat_def Let_def)
  obtain st1 where st1: "far_fill_stat example_state (child_at offsetof_rootdir 1) = Inr st1"
    by (simp add: example_eval far_fill_stat_def Let_def)
  have t: "far_traverse_path example_state ''/sub'' = Inr (Some (At 36), Root)"
    by (simp add: example_eval)
  have ty: "far_type example_state (At 36) = Inr FAR_DIR_TYPE"
    by (simp add: example_eval)
  have "far_ops example_state (Opendir (Some 7) ''/sub'' (example_fi O_RDONLY) :: unit request)
     = Inr (example_state\<lparr>dirs := (dirs example_state)(7 \<mapsto> \<lparr>parent = Root, entry = At 36\<rparr>)\<rparr>,
            OpenReply 0 ((example_fi O_RDONLY)\<lparr>fh := DirHandle 7\<rparr>))"
    by (simp add: far_ops_def far_opendir_def far_dir_new_def bind_res_def t ty FAR_DIR_TYPE_def)
  moreover have "example_state\<lparr>dirs := (dirs example_state)(7 \<mapsto> \<lparr>parent = Root, entry = At 36\<rparr>)\<rparr>
      = example_open_state"
    by (simp add: example_open_state_def example_state_def)
  ultimately have op: "far_ops example_state
      (Opendir (Some 7) ''/sub'' (example_fi O_RDONLY) :: unit request)
     = Inr (example_open_state, OpenReply 0 ((example_fi O_RDONLY)\<lparr>fh := DirHandle 7\<rparr>))"
    by simp
  note inst = fill_stat_inode [OF len, where ?st0.0 = st0 and st' = st1 and j = 1
      and s' = example_open_state and e = "At 36"
      and r = "OpenReply 0 ((example_fi O_RDONLY)\<lparr>fh := DirHandle 7\<rparr>)"
      and rq = "Opendir (Some 7) ''/sub'' (example_fi O_RDONLY) :: unit request"]
  have a: "st_ino st0 = 1" and b: "st_ino st3 = 5"
    using inst [where i = 3 and st = st3] st0 st3
    by simp_all
  have c: "st_ino st1 = 3"
    and d: "far_fill_stat example_open_state (At 36) = far_fill_stat example_state (At 36)"
    using inst [where i = 1 and st = st1] st1 op
    by simp_all
  have e3: "child_at offsetof_rootdir 3 = At 68" and e1: "child_at offsetof_rootdir 1 = At 36"
    by (simp_all add: child_at_def offsetof_rootdir_def sizeof_FARentry_t_def)
  show ?thesis
    using len st0 st3 st1 a b c d e3 e1 by simp
qed

subsection \<open>Reading\<close>

text \<open>
  What \<^verbatim>\<open>far_read\<close> does where its arithmetic is exact. For a handle on an entry \<open>e\<close>:
  a negative offset is refused with \<^verbatim>\<open>EINVAL\<close>; an offset at or beyond the size of \<open>e\<close>
  gives 0 and no bytes; otherwise, when the payload of \<open>e\<close> lies inside the mapping and
  \<open>offset + size\<close> is below \<open>2 ^ 64\<close>, exactly \<open>k = min size (e.size - offset)\<close> bytes
  are copied, the bytes of the mapping from \<open>data_offset + offset\<close> on, and the return
  value is \<open>k\<close> converted to \<^verbatim>\<open>int\<close>.
\<close>

lemma far_read_range:
  fixes offset size_arg :: u64
  assumes "fh fi = EntryHandle e"
  shows "(sint offset < 0 \<longrightarrow> far_read s size_arg offset fi = Inr (- EINVAL, []))
    \<and> (0 \<le> sint offset \<and> far_datasize s e = Inr dsz \<and> uint dsz \<le> sint offset \<longrightarrow>
          far_read s size_arg offset fi = Inr (0, []))
    \<and> (0 \<le> sint offset \<and> far_datasize s e = Inr dsz \<and> sint offset < uint dsz
        \<and> far_data s e = Inr data \<and> data + unat dsz \<le> length (far_mapping s)
        \<and> unat offset + unat size_arg < 2 ^ 64 \<longrightarrow>
          (let k = min (unat size_arg) (unat dsz - unat offset) in
           far_read s size_arg offset fi =
             Inr (if k < 2 ^ 31 then int k else int k - 2 ^ 32,
                  take k (drop (data + unat offset) (far_mapping s)))
           \<and> length (take k (drop (data + unat offset) (far_mapping s))) = k))"
proof (intro conjI impI)
  assume "sint offset < 0"
  then show "far_read s size_arg offset fi = Inr (- EINVAL, [])"
    using assms by (simp add: far_read_def)
next
  assume "0 \<le> sint offset \<and> far_datasize s e = Inr dsz \<and> uint dsz \<le> sint offset"
  then show "far_read s size_arg offset fi = Inr (0, [])"
    using assms by (simp add: far_read_def bind_res_def)
next
  assume a: "0 \<le> sint offset \<and> far_datasize s e = Inr dsz \<and> sint offset < uint dsz
        \<and> far_data s e = Inr data \<and> data + unat dsz \<le> length (far_mapping s)
        \<and> unat offset + unat size_arg < 2 ^ 64"
  then have rd: "far_read s size_arg offset fi =
     Inr (to_int_result (min (unat size_arg) (unat dsz - unat offset)),
          take (min (unat size_arg) (unat dsz - unat offset))
            (drop (data + unat offset) (far_mapping s)))"
    by (intro far_read_in_range [OF assms]) simp_all
  from a have "int (unat offset) < int (unat dsz)"
    using sint_nonneg_unat [of offset] by simp
  then have "unat offset < unat dsz"
    by linarith
  moreover from a have "data + unat dsz \<le> length (far_mapping s)"
    by simp
  ultimately have "data + unat offset + min (unat size_arg) (unat dsz - unat offset)
      \<le> length (far_mapping s)"
    by linarith
  then have "length (take (min (unat size_arg) (unat dsz - unat offset))
      (drop (data + unat offset) (far_mapping s))) = min (unat size_arg) (unat dsz - unat offset)"
    by simp
  with rd show "let k = min (unat size_arg) (unat dsz - unat offset) in
           far_read s size_arg offset fi =
             Inr (if k < 2 ^ 31 then int k else int k - 2 ^ 32,
                  take k (drop (data + unat offset) (far_mapping s)))
           \<and> length (take k (drop (data + unat offset) (far_mapping s))) = k"
    by (simp add: Let_def to_int_result_def)
qed

text \<open>The file \<^verbatim>\<open>hello.txt\<close> of the example: 4 bytes, \<^verbatim>\<open>abcd\<close>, at offset 123.\<close>

lemma far_read_range_example:
  "far_datasize example_state (At 20) = Inr 4
   \<and> far_data example_state (At 20) = Inr 123
   \<and> far_read example_state 10 (- 1) ((example_fi O_RDONLY)\<lparr>fh := EntryHandle (At 20)\<rparr>)
       = Inr (- EINVAL, [])
   \<and> far_read example_state 10 4 ((example_fi O_RDONLY)\<lparr>fh := EntryHandle (At 20)\<rparr>)
       = Inr (0, [])
   \<and> far_read example_state 10 3 ((example_fi O_RDONLY)\<lparr>fh := EntryHandle (At 20)\<rparr>)
       = Inr (1, ''d'')
   \<and> far_read example_state 4 0 ((example_fi O_RDONLY)\<lparr>fh := EntryHandle (At 20)\<rparr>)
       = Inr (4, ''abcd'')"
proof -
  let ?fi = "(example_fi O_RDONLY)\<lparr>fh := EntryHandle (At 20)\<rparr>"
  have h: "fh ?fi = EntryHandle (At 20)"
    by simp
  have sz: "far_datasize example_state (At 20) = Inr 4"
    and dt: "far_data example_state (At 20) = Inr 123"
    and len: "length (far_mapping example_state) = 129"
    by (simp_all add: example_eval)
  have b3: "take 1 (drop 126 (far_mapping example_state)) = ''d''"
    and b0: "take 4 (drop 123 (far_mapping example_state)) = ''abcd''"
    by (simp_all add: example_eval)
  note inst = far_read_range [OF h, where s = example_state and dsz = 4 and data = 123]
  have "far_read example_state 10 (- 1) ?fi = Inr (- EINVAL, [])"
    using inst [where offset = "- 1" and size_arg = 10] by simp
  moreover have "far_read example_state 10 4 ?fi = Inr (0, [])"
    using inst [where offset = 4 and size_arg = 10] sz by simp
  moreover have "far_read example_state 10 3 ?fi = Inr (1, ''d'')"
    using inst [where offset = 3 and size_arg = 10] sz dt len b3 by (simp add: Let_def)
  moreover have "far_read example_state 4 0 ?fi = Inr (4, ''abcd'')"
    using inst [where offset = 0 and size_arg = 4] sz dt len b0 by (simp add: Let_def)
  ultimately show ?thesis
    using sz dt by simp
qed


subsection \<open>Opening a directory as a file\<close>

text \<open>
  C9. \<^verbatim>\<open>far_open\<close> does not look at the type of the entry: on a path that resolves to
  a directory a read-only open succeeds and stores the entry in \<^verbatim>\<open>fi->fh\<close>. A read
  through that handle takes the number of children for a length in bytes and copies
  the bytes that start at the child array. \<^verbatim>\<open>far_open\<close> never answers \<^verbatim>\<open>ENOTDIR\<close>;
  \<^verbatim>\<open>far_opendir\<close> does, for every path that resolves to an entry that is not a
  directory.
\<close>

theorem far_open_ignores_type:
  fixes offset size_arg :: u64
  shows "(far_traverse_path s path = Inr (Some e, par) \<and> far_type s e = Inr FAR_DIR_TYPE
       \<and> fi_flags fi AND O_ACCMODE = O_RDONLY \<longrightarrow>
         far_open s path fi = Inr (0, fi\<lparr>fh := EntryHandle e, keep_cache := 0\<rparr>))
    \<and> (far_type s e = Inr FAR_DIR_TYPE \<and> far_datasize s e = Inr n
       \<and> far_children s e = Inr children \<and> children + unat n \<le> length (far_mapping s)
       \<and> 0 \<le> sint offset \<and> sint offset < uint n \<and> unat offset + unat size_arg < 2 ^ 64 \<longrightarrow>
         (let k = min (unat size_arg) (unat n - unat offset) in
          far_read s size_arg offset (fi\<lparr>fh := EntryHandle e, keep_cache := 0\<rparr>) =
            Inr (if k < 2 ^ 31 then int k else int k - 2 ^ 32,
                 take k (drop (children + unat offset) (far_mapping s)))))
    \<and> (far_open s path fi = Inr (rc, fi') \<longrightarrow> rc \<noteq> - ENOTDIR)
    \<and> (far_traverse_path s path = Inr (Some e', par') \<and> far_type s e' = Inr t
       \<and> t \<noteq> FAR_DIR_TYPE \<longrightarrow>
         far_opendir s m path fi = Inr (s, - ENOTDIR, fi))"
proof (intro conjI impI)
  assume "far_traverse_path s path = Inr (Some e, par) \<and> far_type s e = Inr FAR_DIR_TYPE
       \<and> fi_flags fi AND O_ACCMODE = O_RDONLY"
  then show "far_open s path fi = Inr (0, fi\<lparr>fh := EntryHandle e, keep_cache := 0\<rparr>)"
    by (simp add: far_open_def bind_res_def flag_defs)
next
  assume a: "far_type s e = Inr FAR_DIR_TYPE \<and> far_datasize s e = Inr n
       \<and> far_children s e = Inr children \<and> children + unat n \<le> length (far_mapping s)
       \<and> 0 \<le> sint offset \<and> sint offset < uint n \<and> unat offset + unat size_arg < 2 ^ 64"
  then have dt: "far_data s e = Inr children"
    by (auto simp: far_children_def bind_res_def)
  have h: "fh (fi\<lparr>fh := EntryHandle e, keep_cache := 0\<rparr>) = EntryHandle e"
    by simp
  from a have "far_read s size_arg offset (fi\<lparr>fh := EntryHandle e, keep_cache := 0\<rparr>) =
     Inr (to_int_result (min (unat size_arg) (unat n - unat offset)),
          take (min (unat size_arg) (unat n - unat offset))
            (drop (children + unat offset) (far_mapping s)))"
    by (intro far_read_in_range [OF h _ dt]) simp_all
  then show "let k = min (unat size_arg) (unat n - unat offset) in
          far_read s size_arg offset (fi\<lparr>fh := EntryHandle e, keep_cache := 0\<rparr>) =
            Inr (if k < 2 ^ 31 then int k else int k - 2 ^ 32,
                 take k (drop (children + unat offset) (far_mapping s)))"
    by (simp add: Let_def to_int_result_def)
next
  assume "far_open s path fi = Inr (rc, fi')"
  then show "rc \<noteq> - ENOTDIR"
    by (auto simp: far_open_def bind_res_def errno_defs
        split: sum.splits option.splits if_splits)
next
  assume "far_traverse_path s path = Inr (Some e', par') \<and> far_type s e' = Inr t
       \<and> t \<noteq> FAR_DIR_TYPE"
  then show "far_opendir s m path fi = Inr (s, - ENOTDIR, fi)"
    by (simp add: far_opendir_def bind_res_def)
qed

text \<open>
  In the example, \<^verbatim>\<open>/sub\<close> is the directory at offset 36 with 3 children, whose records
  start at offset 52: a read of 8 bytes at offset 0 through the file handle returns the
  first 3 bytes of the record of \<^verbatim>\<open>d1\<close>.
\<close>

theorem far_open_ignores_type_witness:
  "far_traverse_path example_state ''/sub'' = Inr (Some (At 36), Root)
   \<and> far_type example_state (At 36) = Inr FAR_DIR_TYPE
   \<and> far_open example_state ''/sub'' (example_fi O_RDONLY)
       = Inr (0, (example_fi O_RDONLY)\<lparr>fh := EntryHandle (At 36), keep_cache := 0\<rparr>)
   \<and> far_read example_state 8 0 ((example_fi O_RDONLY)\<lparr>fh := EntryHandle (At 36), keep_cache := 0\<rparr>)
       = Inr (3, take 3 (far_record 1 114 0 0))
   \<and> far_traverse_path example_state ''/hello.txt'' = Inr (Some (At 20), Root)
   \<and> far_type example_state (At 20) = Inr FAR_FILE_TYPE
   \<and> far_opendir example_state (Some 7) ''/hello.txt'' (example_fi O_RDONLY)
       = Inr (example_state, - ENOTDIR, example_fi O_RDONLY)"
proof -
  have t1: "far_traverse_path example_state ''/sub'' = Inr (Some (At 36), Root)"
    and ty1: "far_type example_state (At 36) = Inr FAR_DIR_TYPE"
    and n1: "far_datasize example_state (At 36) = Inr 3"
    and ch1: "far_children example_state (At 36) = Inr 52"
    and len: "length (far_mapping example_state) = 129"
    and t2: "far_traverse_path example_state ''/hello.txt'' = Inr (Some (At 20), Root)"
    and ty2: "far_type example_state (At 20) = Inr FAR_FILE_TYPE"
    by (simp_all add: example_eval)
  have fl: "fi_flags (example_fi O_RDONLY) AND O_ACCMODE = O_RDONLY"
    by (simp add: example_fi_def flag_defs)
  have ne: "FAR_FILE_TYPE \<noteq> FAR_DIR_TYPE"
    by (simp add: FAR_FILE_TYPE_def FAR_DIR_TYPE_def)
  have bytes: "take 3 (drop 52 (far_mapping example_state)) = take 3 (far_record 1 114 0 0)"
    by (simp add: example_eval)
  note inst = far_open_ignores_type [where s = example_state and fi = "example_fi O_RDONLY"
      and e = "At 36" and par = Root and n = 3 and children = 52 and offset = 0 and size_arg = 8
      and e' = "At 20" and par' = Root and t = FAR_FILE_TYPE and m = "Some 7"
      and rc = 0 and fi' = "example_fi O_RDONLY"]
  have "far_open example_state ''/sub'' (example_fi O_RDONLY)
       = Inr (0, (example_fi O_RDONLY)\<lparr>fh := EntryHandle (At 36), keep_cache := 0\<rparr>)"
    using inst [where path = "''/sub''"] t1 ty1 fl by simp
  moreover have "far_read example_state 8 0
        ((example_fi O_RDONLY)\<lparr>fh := EntryHandle (At 36), keep_cache := 0\<rparr>)
       = Inr (3, take 3 (far_record 1 114 0 0))"
    using inst [where path = "''/sub''"] ty1 n1 ch1 len bytes by (simp add: Let_def)
  moreover have "far_opendir example_state (Some 7) ''/hello.txt'' (example_fi O_RDONLY)
       = Inr (example_state, - ENOTDIR, example_fi O_RDONLY)"
    using inst [where path = "''/hello.txt''"] t2 ty2 ne by simp
  ultimately show ?thesis
    using t1 ty1 t2 ty2 by simp
qed

subsection \<open>Listing a directory\<close>

lemma sequence_res_Inr:
  "sequence_res rs = Inr xs \<Longrightarrow>
     length xs = length rs \<and> (\<forall>i < length rs. rs ! i = Inr (xs ! i))"
proof (induction rs arbitrary: xs)
  case Nil
  then show ?case by simp
next
  case (Cons r rs)
  from Cons.prems obtain x ys where r: "r = Inr x" and ys: "sequence_res rs = Inr ys"
    and xs: "xs = x # ys"
    by (auto simp: bind_res_def split: sum.splits)
  from Cons.IH [OF ys] show ?case
    using r xs by (auto simp: nth_Cons split: nat.splits)
qed

lemma child_dirent_Inr:
  assumes "child_dirent s dir i = Inr e"
  obtains children st name nm where "far_children s (entry dir) = Inr children"
    and "far_fill_stat s (child_at children i) = Inr st"
    and "far_name s (child_at children i) = Inr name"
    and "c_string (far_mapping s) name = Inr nm"
    and "e = (nm, st, int i + 3)"
  using assms by (auto simp: child_dirent_def bind_res_def split: sum.splits)

lemma readdir_loop_exit:
  assumes "far_datasize s (entry dir) = Inr n" and "\<not> off - 2 < uint n"
  shows "readdir_loop s dir filler buffer offset off = Inr (0, buffer)"
  using assms by (subst readdir_loop.simps) simp

lemma readdir_loop_skip:
  assumes "far_datasize s (entry dir) = Inr n" and "off - 2 < uint n" and "off \<noteq> offset"
  shows "readdir_loop s dir filler buffer offset off
       = readdir_loop s dir filler buffer offset (off + 1)"
  using assms by (subst readdir_loop.simps) simp

lemma readdir_loop_emit:
  assumes "far_datasize s (entry dir) = Inr n" and "off - 2 < uint n"
    and "child_dirent s dir (nat (off - 2)) = Inr e"
  shows "readdir_loop s dir (fuse_filler full) buffer off off =
     (if full buffer (fst e, fst (snd e), off + 1) then Inr (0, buffer)
      else readdir_loop s dir (fuse_filler full)
             (buffer @ [(fst e, fst (snd e), off + 1)]) (off + 1) (off + 1))"
proof -
  from assms(3) obtain children st name nm
    where "far_children s (entry dir) = Inr children"
      and "far_fill_stat s (child_at children (nat (off - 2))) = Inr st"
      and "far_name s (child_at children (nat (off - 2))) = Inr name"
      and "c_string (far_mapping s) name = Inr nm"
      and "e = (nm, st, int (nat (off - 2)) + 3)"
    by (rule child_dirent_Inr)
  then show ?thesis
    using assms(1,2) by (subst readdir_loop.simps) (simp add: fuse_filler_def)
qed


lemma readdir_loop_feed:
  assumes n: "far_datasize s (entry dir) = Inr n"
    and len: "length cs = unat n"
    and ch: "\<forall>i < unat n. child_dirent s dir i = Inr (cs ! i)"
  shows "2 \<le> off \<Longrightarrow>
     readdir_loop s dir (fuse_filler full) buffer offset off =
       Inr (0, if off \<le> offset then feed full buffer (drop (nat (offset - 2)) cs) else buffer)"
proof (induction "nat (uint n + 2 - off)" arbitrary: off offset buffer)
  case 0
  then have ex: "\<not> off - 2 < uint n"
    by simp
  have "drop (nat (offset - 2)) cs = []" if "off \<le> offset"
  proof -
    from that ex have "uint n \<le> offset - 2"
      by simp
    then have "unat n \<le> nat (offset - 2)"
      by (simp add: unat_eq_nat_uint nat_mono del: nat_uint_eq)
    then show ?thesis
      using len by simp
  qed
  then show ?case
    using readdir_loop_exit [OF n ex] by simp
next
  case (Suc k)
  then have lt: "off - 2 < uint n"
    by simp
  have k: "k = nat (uint n + 2 - (off + 1))"
    using Suc.hyps(2) by simp
  have off1: "2 \<le> off + 1"
    using Suc.prems by simp
  show ?case
  proof (cases "off = offset")
    case False
    have "readdir_loop s dir (fuse_filler full) buffer offset off
        = readdir_loop s dir (fuse_filler full) buffer offset (off + 1)"
      by (rule readdir_loop_skip [OF n lt False])
    also have "\<dots> = Inr (0, if off + 1 \<le> offset
        then feed full buffer (drop (nat (offset - 2)) cs) else buffer)"
      by (rule Suc.hyps(1) [OF k off1])
    finally show ?thesis
      using False by (simp add: zle_add1_eq_le flip: less_le)
  next
    case True
    define i where "i = nat (off - 2)"
    have i: "i < unat n"
      using lt Suc.prems by (simp add: i_def unat_eq_nat_uint del: nat_uint_eq)
    then have e: "child_dirent s dir (nat (off - 2)) = Inr (cs ! i)"
      using ch by (simp add: i_def)
    have third: "snd (snd (cs ! i)) = off + 1"
    proof -
      from e obtain nm st where "cs ! i = (nm, st, int (nat (off - 2)) + 3)"
        by (auto elim: child_dirent_Inr)
      then show ?thesis
        using Suc.prems by simp
    qed
    then have ei: "(fst (cs ! i), fst (snd (cs ! i)), off + 1) = cs ! i"
      by (simp add: prod_eq_iff)
    have dr: "drop (nat (offset - 2)) cs = cs ! i # drop (nat (offset + 1 - 2)) cs"
    proof -
      have "nat (offset + 1 - 2) = Suc i"
        using True Suc.prems by (simp add: i_def)
      moreover have "nat (offset - 2) = i"
        using True by (simp add: i_def)
      ultimately show ?thesis
        using i len by (simp add: Cons_nth_drop_Suc)
    qed
    have step: "readdir_loop s dir (fuse_filler full) buffer off off =
       (if full buffer (cs ! i) then Inr (0, buffer)
        else readdir_loop s dir (fuse_filler full) (buffer @ [cs ! i]) (off + 1) (off + 1))"
      using readdir_loop_emit [OF n lt e, of full buffer] ei by simp
    show ?thesis
    proof (cases "full buffer (cs ! i)")
      case True
      then show ?thesis
        using step dr \<open>off = offset\<close> by simp
    next
      case False
      have "readdir_loop s dir (fuse_filler full) (buffer @ [cs ! i]) (off + 1) (off + 1)
         = Inr (0, if off + 1 \<le> off + 1
             then feed full (buffer @ [cs ! i]) (drop (nat (off + 1 - 2)) cs)
             else buffer @ [cs ! i])"
        by (rule Suc.hyps(1) [OF k off1])
      then show ?thesis
        using step dr \<open>off = offset\<close> False by simp
    qed
  qed
qed


lemma dir_listing_Inr:
  assumes "dir_listing s dir = Inr L"
  obtains st0 st1 n cs where "far_fill_stat s (entry dir) = Inr st0"
    and "far_fill_stat s (parent dir) = Inr st1"
    and "far_datasize s (entry dir) = Inr n"
    and "length cs = unat n"
    and "\<forall>i < unat n. child_dirent s dir i = Inr (cs ! i)"
    and "L = (''.'', st0, 1) # (''..'', st1, 2) # cs"
proof -
  from assms obtain st0 st1 n cs where a: "far_fill_stat s (entry dir) = Inr st0"
    "far_fill_stat s (parent dir) = Inr st1" "far_datasize s (entry dir) = Inr n"
    and sq: "sequence_res (map (child_dirent s dir) [0..<unat n]) = Inr cs"
    and L: "L = (''.'', st0, 1) # (''..'', st1, 2) # cs"
    by (auto simp: dir_listing_def bind_res_def split: sum.splits)
  from sequence_res_Inr [OF sq] have "length cs = unat n"
    and "\<forall>i < unat n. child_dirent s dir i = Inr (cs ! i)"
    by simp_all
  with a L show ?thesis
    using that by blast
qed

lemma readdir_dot_feed:
  assumes "dir_listing s dir = Inr L" and "0 \<le> c"
  shows "readdir_dot s dir (fuse_filler full) buffer c = Inr (0, feed full buffer (drop (nat c) L))"
proof -
  from assms(1) obtain st0 st1 n cs where st0: "far_fill_stat s (entry dir) = Inr st0"
    and st1: "far_fill_stat s (parent dir) = Inr st1"
    and n: "far_datasize s (entry dir) = Inr n"
    and len: "length cs = unat n"
    and ch: "\<forall>i < unat n. child_dirent s dir i = Inr (cs ! i)"
    and L: "L = (''.'', st0, 1) # (''..'', st1, 2) # cs"
    by (rule dir_listing_Inr)
  note loop = readdir_loop_feed [OF n len ch, of 2 full]
  consider "c = 0" | "c = 1" | "2 \<le> c"
    using assms(2) by linarith
  then show ?thesis
  proof cases
    case 1
    then show ?thesis
      using st0 st1 loop [of _ 2]
      by (simp add: readdir_dot_def readdir_dotdot_def bind_res_def fuse_filler_def L)
  next
    case 2
    then show ?thesis
      using st1 loop [of _ 2]
      by (simp add: readdir_dot_def readdir_dotdot_def bind_res_def fuse_filler_def L)
  next
    case 3
    then have "nat c = Suc (Suc (nat (c - 2)))"
      by simp
    then have "drop (nat c) L = drop (nat (c - 2)) cs"
      by (simp add: L)
    then show ?thesis
      using 3 loop [of buffer c]
      by (simp add: readdir_dot_def readdir_dotdot_def)
  qed
qed

lemma listing_offsets:
  assumes "dir_listing s dir = Inr L" and "i < length L"
  shows "snd (snd (L ! i)) = int i + 1"
proof -
  from assms(1) obtain st0 st1 n cs where "far_fill_stat s (entry dir) = Inr st0"
    and "far_fill_stat s (parent dir) = Inr st1"
    and "far_datasize s (entry dir) = Inr n"
    and len: "length cs = unat n"
    and ch: "\<forall>i < unat n. child_dirent s dir i = Inr (cs ! i)"
    and L: "L = (''.'', st0, 1) # (''..'', st1, 2) # cs"
    by (rule dir_listing_Inr)
  have "snd (snd (cs ! j)) = int j + 3" if "j < unat n" for j
  proof -
    from ch that have "child_dirent s dir j = Inr (cs ! j)"
      by simp
    then show ?thesis
      by (auto elim: child_dirent_Inr)
  qed
  then show ?thesis
    using assms(2) len by (auto simp: L nth_Cons split: nat.splits)
qed

lemma feed_prefix: "\<exists>j \<le> length xs. feed full buffer xs = buffer @ take j xs"
proof (induction xs arbitrary: buffer)
  case Nil
  then show ?case by simp
next
  case (Cons x xs)
  show ?case
  proof (cases "full buffer x")
    case True
    then have "feed full buffer (x # xs) = buffer @ take 0 (x # xs)"
      by simp
    then show ?thesis
      by blast
  next
    case False
    from Cons.IH [of "buffer @ [x]"] obtain j where "j \<le> length xs"
      and "feed full (buffer @ [x]) xs = (buffer @ [x]) @ take j xs"
      by blast
    then have "Suc j \<le> length (x # xs)"
      and "feed full buffer (x # xs) = buffer @ take (Suc j) (x # xs)"
      using False by simp_all
    then show ?thesis
      by blast
  qed
qed

lemma feed_progress:
  assumes "\<not> full [] x"
  shows "\<exists>j \<le> length xs. feed full [] (x # xs) = take (Suc j) (x # xs)"
proof -
  from feed_prefix [of xs full "[x]"] obtain j where "j \<le> length xs"
    and "feed full [x] xs = [x] @ take j xs"
    by blast
  then show ?thesis
    using assms by auto
qed

lemma next_cursor_take:
  assumes off: "\<forall>i < length L. snd (snd (L ! i)) = int i + 1"
    and c: "0 \<le> c" and j: "j \<le> length (drop (nat c) L)"
  shows "next_cursor c (take j (drop (nat c) L)) = c + int j"
proof (cases j)
  case 0
  then show ?thesis
    by (simp add: next_cursor_def)
next
  case (Suc m)
  let ?got = "take j (drop (nat c) L)"
  have lg: "length ?got = j"
    using j by simp
  then have ne: "?got \<noteq> []"
    using Suc by auto
  have "last ?got = ?got ! m"
    using ne lg Suc by (simp add: last_conv_nth)
  also have "\<dots> = L ! (nat c + m)"
    using j Suc by simp
  finally have "snd (snd (last ?got)) = int (nat c + m) + 1"
    using off j Suc by simp
  moreover have "next_cursor c ?got = snd (snd (last ?got))"
    using ne by (cases ?got) (simp_all add: next_cursor_def)
  ultimately show ?thesis
    using c Suc by simp
qed


lemma far_readdir_feed:
  assumes "fh fi = DirHandle d" and "dirs s d = Some dir"
    and "dir_listing s dir = Inr L" and "0 \<le> c"
  shows "far_readdir s buffer (fuse_filler full) c fi
       = Inr (0, feed full buffer (drop (nat c) L))"
  using assms(1,2) readdir_dot_feed [OF assms(3,4)] by (simp add: far_readdir_def)

lemma list_directory_prefix:
  assumes h: "fh fi = DirHandle d" "dirs s d = Some dir" and dl: "dir_listing s dir = Inr L"
  shows "0 \<le> c \<Longrightarrow> \<exists>k. list_directory s fi c fs = Inr (take k (drop (nat c) L))"
proof (induction fs arbitrary: c)
  case Nil
  have "list_directory s fi c [] = Inr (take 0 (drop (nat c) L))"
    by simp
  then show ?case
    by blast
next
  case (Cons full fs)
  let ?X = "drop (nat c) L"
  from feed_prefix [of ?X full "[]"] obtain j where j: "j \<le> length ?X"
    and fd: "feed full [] ?X = take j ?X"
    by auto
  have rd: "far_readdir s [] (fuse_filler full) c fi = Inr (0, take j ?X)"
    using far_readdir_feed [OF h dl Cons.prems, of "[]" full] fd by simp
  have nc: "next_cursor c (take j ?X) = c + int j"
    using listing_offsets [OF dl] Cons.prems j by (intro next_cursor_take) simp_all
  have c': "0 \<le> c + int j"
    using Cons.prems by simp
  from Cons.IH [OF c'] obtain k
    where "list_directory s fi (c + int j) fs = Inr (take k (drop (nat (c + int j)) L))"
    by blast
  moreover have "drop (nat (c + int j)) L = drop j ?X"
    using Cons.prems by (simp add: nat_add_distrib add.commute)
  ultimately have "list_directory s fi c (full # fs) = Inr (take j ?X @ take k (drop j ?X))"
    using rd nc by simp
  then have "list_directory s fi c (full # fs) = Inr (take (j + k) ?X)"
    by (simp add: take_add)
  then show ?case
    by blast
qed

lemma list_directory_complete:
  assumes h: "fh fi = DirHandle d" "dirs s d = Some dir" and dl: "dir_listing s dir = Inr L"
  shows "0 \<le> c \<Longrightarrow> \<forall>full \<in> set fs. \<forall>e. \<not> full [] e \<Longrightarrow> length L - nat c \<le> length fs \<Longrightarrow>
     list_directory s fi c fs = Inr (drop (nat c) L)"
proof (induction fs arbitrary: c)
  case Nil
  then show ?case
    by simp
next
  case (Cons full fs)
  let ?X = "drop (nat c) L"
  have acc: "\<forall>full \<in> set fs. \<forall>e. \<not> full [] e"
    using Cons.prems(2) by auto
  show ?case
  proof (cases ?X)
    case Nil
    then have rd: "far_readdir s [] (fuse_filler full) c fi = Inr (0, [])"
      using far_readdir_feed [OF h dl Cons.prems(1), of "[]" full] by simp
    have "length L - nat c \<le> length fs"
      using Nil by simp
    from Cons.IH [OF Cons.prems(1) acc this]
    show ?thesis
      using rd Nil by (simp add: next_cursor_def)
  next
    case (Cons x xs)
    have nf: "\<not> full [] x"
      using Cons.prems(2) by (cases x) auto
    from feed_progress [of full x xs] nf obtain j where j: "j \<le> length xs"
      and fd: "feed full [] ?X = take (Suc j) ?X"
      using Cons by auto
    have rd: "far_readdir s [] (fuse_filler full) c fi = Inr (0, take (Suc j) ?X)"
      using far_readdir_feed [OF h dl Cons.prems(1), of "[]" full] fd by simp
    have jl: "Suc j \<le> length ?X"
      using j Cons by simp
    have nc: "next_cursor c (take (Suc j) ?X) = c + int (Suc j)"
      using listing_offsets [OF dl] Cons.prems(1) jl by (intro next_cursor_take) simp_all
    have c': "0 \<le> c + int (Suc j)"
      using Cons.prems(1) by simp
    have nat': "nat (c + int (Suc j)) = nat c + Suc j"
      using Cons.prems(1) by (simp add: nat_add_distrib)
    have "length L - nat (c + int (Suc j)) \<le> length fs"
      using Cons.prems(3) nat' by simp
    from Cons.IH [OF c' acc this]
    have "list_directory s fi (c + int (Suc j)) fs = Inr (drop (Suc j) ?X)"
      using nat' by (simp add: add.commute)
    then have "list_directory s fi c (full # fs) = Inr (take (Suc j) ?X @ drop (Suc j) ?X)"
      using rd nc by simp
    then show ?thesis
      by (simp only: append_take_drop_id)
  qed
qed


text \<open>
  C4. For an open handle whose listing \<open>L\<close> can be read (\<^verbatim>\<open>.\<close> with the attributes of
  the directory, \<^verbatim>\<open>..\<close> with those of the captured parent, then the children in table
  order, the entry at position \<open>i\<close> carrying the next offset \<open>i + 1\<close>), a call of
  \<^verbatim>\<open>far_readdir\<close> with cursor \<open>c\<close> offers the filler the entries of \<open>L\<close> from position
  \<open>c\<close> on, one after the other, and stops at the first that the filler refuses. The
  concatenation of what a sequence of calls takes, each resumed at the offset of the last
  entry taken, is always an initial segment of \<open>L\<close>, and it is all of \<open>L\<close> when every
  call takes at least the first entry offered and there are as many calls as entries.
\<close>

theorem readdir_cursor_protocol:
  assumes "fh fi = DirHandle d" and "dirs s d = Some dir" and "dir_listing s dir = Inr L"
  shows "(\<exists>st0 st1 n cs. far_fill_stat s (entry dir) = Inr st0
            \<and> far_fill_stat s (parent dir) = Inr st1
            \<and> far_datasize s (entry dir) = Inr n \<and> length cs = unat n
            \<and> (\<forall>i < unat n. child_dirent s dir i = Inr (cs ! i))
            \<and> L = (''.'', st0, 1) # (''..'', st1, 2) # cs)
    \<and> (0 \<le> c \<longrightarrow>
          far_readdir s buffer (fuse_filler full) c fi
            = Inr (0, feed full buffer (drop (nat c) L)))
    \<and> (\<exists>k. list_directory s fi 0 fs = Inr (take k L))
    \<and> ((\<forall>full \<in> set fs. \<forall>e. \<not> full [] e) \<and> length L \<le> length fs \<longrightarrow>
          list_directory s fi 0 fs = Inr L)"
proof (intro conjI impI)
  show "\<exists>st0 st1 n cs. far_fill_stat s (entry dir) = Inr st0
            \<and> far_fill_stat s (parent dir) = Inr st1
            \<and> far_datasize s (entry dir) = Inr n \<and> length cs = unat n
            \<and> (\<forall>i < unat n. child_dirent s dir i = Inr (cs ! i))
            \<and> L = (''.'', st0, 1) # (''..'', st1, 2) # cs"
    using assms(3) by (rule dir_listing_Inr) blast
next
  assume "0 \<le> c"
  then show "far_readdir s buffer (fuse_filler full) c fi
      = Inr (0, feed full buffer (drop (nat c) L))"
    by (rule far_readdir_feed [OF assms])
next
  show "\<exists>k. list_directory s fi 0 fs = Inr (take k L)"
    using list_directory_prefix [OF assms, of 0 fs] by simp
next
  assume a: "(\<forall>full \<in> set fs. \<forall>e. \<not> full [] e) \<and> length L \<le> length fs"
  then have p: "\<forall>full \<in> set fs. \<forall>e. \<not> full [] e"
    by (rule conjunct1)
  from a have q: "length L - nat 0 \<le> length fs"
    by simp
  have "list_directory s fi 0 fs = Inr (drop (nat 0) L)"
    by (rule list_directory_complete [OF assms order_refl p q])
  then show "list_directory s fi 0 fs = Inr L"
    by simp
qed

text \<open>
  The handle on \<^verbatim>\<open>/sub\<close> in the example, read with a filler whose buffer holds two
  entries.
\<close>

theorem readdir_cursor_protocol_witness:
  "dirs example_open_state 7 = Some \<lparr>parent = Root, entry = At 36\<rparr>
   \<and> map_sum id (map fst) (dir_listing example_open_state \<lparr>parent = Root, entry = At 36\<rparr>)
       = Inr [''.'', ''..'', ''d1'', ''f1'', ''d2'']
   \<and> map_sum id (map fst)
        (list_directory example_open_state ((example_fi O_RDONLY)\<lparr>fh := DirHandle 7\<rparr>) 0
           (replicate 5 (\<lambda>buffer e. 2 \<le> length buffer)))
       = Inr [''.'', ''..'', ''d1'', ''f1'', ''d2'']
   \<and> map_sum id (map fst \<circ> snd)
        (far_readdir example_open_state [] (fuse_filler (\<lambda>buffer e. 2 \<le> length buffer)) 2
           ((example_fi O_RDONLY)\<lparr>fh := DirHandle 7\<rparr>))
       = Inr [''d1'', ''f1'']"
proof -
  let ?fi = "(example_fi O_RDONLY)\<lparr>fh := DirHandle 7\<rparr>"
  let ?dir = "\<lparr>parent = Root, entry = At 36\<rparr>"
  let ?cap = "\<lambda>(buffer :: dirent list) (e :: dirent). 2 \<le> length buffer"
  have h1: "fh ?fi = DirHandle 7"
    by simp
  have h2: "dirs example_open_state 7 = Some ?dir"
    by (simp add: example_open_state_def)
  obtain a b c d e where dl: "dir_listing example_open_state ?dir = Inr [a, b, c, d, e]"
    and names: "map fst [a, b, c, d, e] = [''.'', ''..'', ''d1'', ''f1'', ''d2'']"
    by (simp add: dir_listing_def child_dirent_def far_fill_stat_def Let_def
        example_open_state_def example_eval upt_conv_Cons)
  note inst = readdir_cursor_protocol [OF h1 h2 dl, where fs = "replicate 5 ?cap"
      and c = 2 and buffer = "[]" and full = ?cap]
  have "list_directory example_open_state ?fi 0 (replicate 5 ?cap) = Inr [a, b, c, d, e]"
    using inst by simp
  moreover have "far_readdir example_open_state [] (fuse_filler ?cap) 2 ?fi = Inr (0, [c, d])"
    using inst by simp
  ultimately show ?thesis
    using h2 dl names by simp
qed


end
